theory Spec2Isabelle
  imports Complex_Main "HOL-Library.AList"
begin

section \<open>JavaScript strings\<close>

text \<open>
  A JavaScript string is modelled as a \<^typ>\<open>string\<close>, one \<^typ>\<open>char\<close> per byte of its
  UTF-8 form.  All the literals of the program are ASCII, and on ASCII text the operations
  below are the ones of the language: \<open>toLowerCase\<close>, \<open>includes\<close>, \<open>startsWith\<close>,
  \<open>substring(n)\<close> and \<open>split(sep)\<close> with a one-character separator.
\<close>

definition lower_char :: "char \<Rightarrow> char" where
  "lower_char c =
     (if (65::nat) \<le> of_char c \<and> of_char c \<le> (90::nat)
      then (case c of Char b0 b1 b2 b3 b4 b5 b6 b7 \<Rightarrow> Char b0 b1 b2 b3 b4 True b6 b7)
      else c)"

definition toLowerCase :: "string \<Rightarrow> string" where
  "toLowerCase s = map lower_char s"

definition startsWith :: "string \<Rightarrow> string \<Rightarrow> bool" where
  "startsWith s p = (take (length p) s = p)"

fun str_includes :: "string \<Rightarrow> string \<Rightarrow> bool" where
  "str_includes [] p = (p = [])"
| "str_includes (c # cs) p = (startsWith (c # cs) p \<or> str_includes cs p)"

text \<open>
  \<open>s.split(sep)\<close>: the pieces of \<open>s\<close> between the separators, at least one.  A character
  that is not the separator goes to the front of the first piece of the rest (the rest
  always has one, so the last case is never taken).
\<close>

fun split_on :: "char \<Rightarrow> string \<Rightarrow> string list" where
  "split_on sep [] = [[]]"
| "split_on sep (c # cs) =
     (if c = sep then [] # split_on sep cs
      else (case split_on sep cs of
              piece # pieces \<Rightarrow> (c # piece) # pieces
            | [] \<Rightarrow> [[c]]))"


section \<open>JSON values, \<open>JSON.parse\<close> and \<open>JSON.stringify\<close>\<close>

text \<open>
  The values that \<open>JSON.parse\<close> produces.  An object is the list of its own properties
  in insertion order; reading a property is \<^const>\<open>map_of\<close>, assigning one is
  \<^const>\<open>AList.update\<close> (an existing key keeps its place, a new key goes last) and
  \<open>delete\<close> is \<^const>\<open>AList.delete\<close>.  A missing property (\<open>undefined\<close>) is \<open>None\<close>.

  A JavaScript number is a double.  The model computes with the exact rational that the
  number stands for (type \<open>number\<close>): sums, products and comparisons of the timestamps
  of this program are exact in both, rounding, \<open>NaN\<close> and the infinities are not
  represented.
\<close>

type_synonym number = rat

datatype json =
    JNull
  | JBool bool
  | JNum number
  | JStr string
  | JArr "json list"
  | JObj "(string \<times> json) list"

type_synonym jsobject = "(string \<times> json) list"

text \<open>Truthiness of a value, and of a value that may be \<open>undefined\<close>.\<close>

fun truthy :: "json \<Rightarrow> bool" where
  "truthy JNull = False"
| "truthy (JBool b) = b"
| "truthy (JNum x) = (x \<noteq> 0)"
| "truthy (JStr s) = (s \<noteq> [])"
| "truthy (JArr xs) = True"
| "truthy (JObj kvs) = True"

fun truthy_opt :: "json option \<Rightarrow> bool" where
  "truthy_opt None = False"
| "truthy_opt (Some v) = truthy v"

text \<open>
  \<open>v.key\<close> on a value that is neither \<open>null\<close> nor \<open>undefined\<close>.  Only objects carry the
  keys this program reads; on a number, a string, a boolean or an array they are
  \<open>undefined\<close>.
\<close>

fun member :: "json \<Rightarrow> string \<Rightarrow> json option" where
  "member (JObj kvs) key = map_of kvs key"
| "member v key = None"

text \<open>Optional chaining \<open>v?.key\<close>: \<open>undefined\<close> when \<open>v\<close> is \<open>null\<close> or \<open>undefined\<close>.\<close>

fun opt_member :: "json option \<Rightarrow> string \<Rightarrow> json option" where
  "opt_member None key = None"
| "opt_member (Some v) key = member v key"

subsection \<open>\<open>JSON.parse\<close>\<close>

definition is_ws :: "char \<Rightarrow> bool" where
  "is_ws c = (c = CHR '' '' \<or> c = CHR 0x09 \<or> c = CHR 0x0A \<or> c = CHR 0x0D)"

definition skip_ws :: "string \<Rightarrow> string" where
  "skip_ws s = dropWhile is_ws s"

definition is_digit :: "char \<Rightarrow> bool" where
  "is_digit c = ((48::nat) \<le> of_char c \<and> of_char c \<le> (57::nat))"

definition digit_val :: "char \<Rightarrow> int" where
  "digit_val c = of_char c - 48"

definition digits_val :: "string \<Rightarrow> int" where
  "digits_val ds = foldl (\<lambda>a c. 10 * a + digit_val c) 0 ds"

definition hex_val :: "char \<Rightarrow> nat option" where
  "hex_val c =
     (let n = (of_char c :: nat) in
      if 48 \<le> n \<and> n \<le> 57 then Some (n - 48)
      else if 65 \<le> n \<and> n \<le> 70 then Some (n - 55)
      else if 97 \<le> n \<and> n \<le> 102 then Some (n - 87)
      else None)"

fun hex4 :: "string \<Rightarrow> nat option" where
  "hex4 [a, b, c, d] =
     (case (hex_val a, hex_val b, hex_val c, hex_val d) of
        (Some x, Some y, Some z, Some w) \<Rightarrow> Some (((x * 16 + y) * 16 + z) * 16 + w)
      | _ \<Rightarrow> None)"
| "hex4 _ = None"

text \<open>The bytes of the code unit that a \<open>\u\<close> escape names (a surrogate is kept as such).\<close>

definition utf8 :: "nat \<Rightarrow> string" where
  "utf8 n =
     (if n < 128 then [char_of n]
      else if n < 2048 then [char_of (192 + n div 64), char_of (128 + n mod 64)]
      else [char_of (224 + n div 4096), char_of (128 + (n div 64) mod 64),
            char_of (128 + n mod 64)])"

definition unescape :: "char \<Rightarrow> char option" where
  "unescape e =
     (if e = CHR 0x22 \<or> e = CHR 0x5C \<or> e = CHR ''/'' then Some e
      else if e = CHR ''b'' then Some (CHR 0x08)
      else if e = CHR ''f'' then Some (CHR 0x0C)
      else if e = CHR ''n'' then Some (CHR 0x0A)
      else if e = CHR ''r'' then Some (CHR 0x0D)
      else if e = CHR ''t'' then Some (CHR 0x09)
      else None)"

text \<open>The characters of a string literal after its opening quote, and the text after it.\<close>

fun parse_chars :: "string \<Rightarrow> (string \<times> string) option" where
  "parse_chars [] = None"
| "parse_chars (c # cs) =
     (if c = CHR 0x22 then Some ([], cs)
      else if c = CHR 0x5C then
        (case cs of
           [] \<Rightarrow> None
         | e # cs' \<Rightarrow>
             if e = CHR ''u'' then
               (case hex4 (take 4 cs') of
                  None \<Rightarrow> None
                | Some n \<Rightarrow> map_option (\<lambda>(s, r). (utf8 n @ s, r)) (parse_chars (drop 4 cs')))
             else
               (case unescape e of
                  None \<Rightarrow> None
                | Some ch \<Rightarrow> map_option (\<lambda>(s, r). (ch # s, r)) (parse_chars cs')))
      else if (of_char c :: nat) < 32 then None
      else map_option (\<lambda>(s, r). (c # s, r)) (parse_chars cs))"

definition parse_fraction :: "string \<Rightarrow> (string \<times> string) option" where
  "parse_fraction s =
     (case s of
        [] \<Rightarrow> Some ([], s)
      | c # cs \<Rightarrow>
          if c = CHR ''.'' then
            (let f = takeWhile is_digit cs
             in if f = [] then None else Some (f, dropWhile is_digit cs))
          else Some ([], s))"

definition parse_exponent :: "string \<Rightarrow> (int \<times> string) option" where
  "parse_exponent s =
     (case s of
        [] \<Rightarrow> Some (0, s)
      | c # cs \<Rightarrow>
          if c = CHR ''e'' \<or> c = CHR ''E'' then
            (let neg = (cs \<noteq> [] \<and> hd cs = CHR ''-'');
                 ds = (if cs \<noteq> [] \<and> (hd cs = CHR ''-'' \<or> hd cs = CHR ''+'') then tl cs else cs);
                 e = takeWhile is_digit ds
             in if e = [] then None
                else Some ((if neg then - digits_val e else digits_val e),
                           dropWhile is_digit ds))
          else Some (0, s))"

text \<open>
  A number token: an optional minus, \<open>0\<close> or digits without a leading zero, an optional
  fraction, an optional exponent.
\<close>

definition parse_number :: "string \<Rightarrow> (number \<times> string) option" where
  "parse_number s =
     (let neg = (s \<noteq> [] \<and> hd s = CHR ''-'');
          s1 = (if neg then tl s else s);
          i = (if s1 \<noteq> [] \<and> hd s1 = CHR ''0'' then ''0'' else takeWhile is_digit s1)
      in if i = [] then None
         else
           (case parse_fraction (drop (length i) s1) of
              None \<Rightarrow> None
            | Some (f, s2) \<Rightarrow>
                (case parse_exponent s2 of
                   None \<Rightarrow> None
                 | Some (e, s3) \<Rightarrow>
                     let m = of_int (digits_val (i @ f)) / 10 ^ length f;
                         v = (if 0 \<le> e then m * 10 ^ nat e else m / 10 ^ nat (- e))
                     in Some ((if neg then - v else v), s3))))"

text \<open>
  Recursive descent over the text.  The first argument bounds the number of nested calls;
  \<open>parse_elements\<close> reads the elements of an array after its bracket and
  \<open>parse_members\<close> the members of an object after its brace.  A repeated key keeps its
  first place and takes the last value, as in JavaScript.
\<close>

fun parse_value :: "nat \<Rightarrow> string \<Rightarrow> (json \<times> string) option"
  and parse_elements :: "nat \<Rightarrow> json list \<Rightarrow> string \<Rightarrow> (json \<times> string) option"
  and parse_members :: "nat \<Rightarrow> jsobject \<Rightarrow> string \<Rightarrow> (json \<times> string) option"
where
  "parse_value 0 s = None"
| "parse_value (Suc n) s =
     (case skip_ws s of
        [] \<Rightarrow> None
      | c # cs \<Rightarrow>
          if c = CHR ''{'' then
            (if startsWith (skip_ws cs) ''}'' then Some (JObj [], tl (skip_ws cs))
             else parse_members n [] cs)
          else if c = CHR ''['' then
            (if startsWith (skip_ws cs) '']'' then Some (JArr [], tl (skip_ws cs))
             else parse_elements n [] cs)
          else if c = CHR 0x22 then map_option (\<lambda>(s, r). (JStr s, r)) (parse_chars cs)
          else if startsWith (c # cs) ''true'' then Some (JBool True, drop 4 (c # cs))
          else if startsWith (c # cs) ''false'' then Some (JBool False, drop 5 (c # cs))
          else if startsWith (c # cs) ''null'' then Some (JNull, drop 4 (c # cs))
          else map_option (\<lambda>(x, r). (JNum x, r)) (parse_number (c # cs)))"
| "parse_elements 0 acc s = None"
| "parse_elements (Suc n) acc s =
     (case parse_value n s of
        None \<Rightarrow> None
      | Some (v, r) \<Rightarrow>
          (case skip_ws r of
             [] \<Rightarrow> None
           | c # cs \<Rightarrow>
               if c = CHR '','' then parse_elements n (acc @ [v]) cs
               else if c = CHR '']'' then Some (JArr (acc @ [v]), cs)
               else None))"
| "parse_members 0 acc s = None"
| "parse_members (Suc n) acc s =
     (case skip_ws s of
        [] \<Rightarrow> None
      | q # s1 \<Rightarrow>
          if q \<noteq> CHR 0x22 then None
          else
            (case parse_chars s1 of
               None \<Rightarrow> None
             | Some (k, s2) \<Rightarrow>
                 if \<not> startsWith (skip_ws s2) '':'' then None
                 else
                   (case parse_value n (tl (skip_ws s2)) of
                      None \<Rightarrow> None
                    | Some (v, r) \<Rightarrow>
                        (case skip_ws r of
                           [] \<Rightarrow> None
                         | c # cs \<Rightarrow>
                             if c = CHR '','' then parse_members n (AList.update k v acc) cs
                             else if c = CHR ''}'' then Some (JObj (AList.update k v acc), cs)
                             else None))))"

text \<open>
  \<open>JSON.parse(s)\<close>: \<open>None\<close> is the \<open>SyntaxError\<close>.  Every nested call comes after at
  least one more character of the text has been read by one of the two calls before it, so
  the bound \<open>2 * length s + 2\<close> is never reached (\<open>parse_fuel_enough\<close> below).
\<close>

definition JSON_parse :: "string \<Rightarrow> json option" where
  "JSON_parse s =
     (case parse_value (2 * length s + 2) s of
        None \<Rightarrow> None
      | Some (v, r) \<Rightarrow> if skip_ws r = [] then Some v else None)"

subsection \<open>\<open>JSON.stringify\<close>\<close>

definition digit_char :: "nat \<Rightarrow> char" where
  "digit_char d = char_of (48 + d)"

function show_nat :: "nat \<Rightarrow> string" where
  "show_nat n = (if n < 10 then [digit_char n] else show_nat (n div 10) @ [digit_char (n mod 10)])"
  by pat_completeness auto
termination
  by (relation "measure id") auto

text \<open>At most \<open>k\<close> digits of the decimal expansion of \<open>a / b\<close>, for \<open>a < b\<close>.\<close>

fun frac_digits :: "nat \<Rightarrow> nat \<Rightarrow> nat \<Rightarrow> string" where
  "frac_digits 0 a b = []"
| "frac_digits (Suc k) a b =
     (if a = 0 then [] else digit_char (10 * a div b) # frac_digits k (10 * a mod b) b)"

text \<open>
  A number is written as its decimal expansion, to at most 17 fractional digits.  This is
  the text JavaScript writes for the numbers it writes in positional notation with up to
  15 significant digits.
\<close>

definition show_number :: "number \<Rightarrow> string" where
  "show_number x =
     (let (p, q) = quotient_of x;
          a = nat \<bar>p\<bar>;
          b = nat q
      in (if p < 0 then ''-'' else [])
         @ show_nat (a div b)
         @ (if a mod b = 0 then [] else ''.'' @ frac_digits 17 (a mod b) b))"

definition hex_char :: "nat \<Rightarrow> char" where
  "hex_char d = (if d < 10 then char_of (48 + d) else char_of (87 + d))"

definition quote_char :: "char \<Rightarrow> string" where
  "quote_char c =
     (if c = CHR 0x22 then [CHR 0x5C, CHR 0x22]
      else if c = CHR 0x5C then [CHR 0x5C, CHR 0x5C]
      else if c = CHR 0x08 then [CHR 0x5C, CHR ''b'']
      else if c = CHR 0x0C then [CHR 0x5C, CHR ''f'']
      else if c = CHR 0x0A then [CHR 0x5C, CHR ''n'']
      else if c = CHR 0x0D then [CHR 0x5C, CHR ''r'']
      else if c = CHR 0x09 then [CHR 0x5C, CHR ''t'']
      else if (of_char c :: nat) < 32
        then [CHR 0x5C, CHR ''u'', CHR ''0'', CHR ''0'',
              hex_char (of_char c div 16), hex_char (of_char c mod 16)]
      else [c])"

definition quote :: "string \<Rightarrow> string" where
  "quote s = [CHR 0x22] @ concat (map quote_char s) @ [CHR 0x22]"

definition join_commas :: "string list \<Rightarrow> string" where
  "join_commas xs = concat (case xs of [] \<Rightarrow> [] | y # ys \<Rightarrow> y # map (\<lambda>z. '','' @ z) ys)"

fun JSON_stringify :: "json \<Rightarrow> string" where
  "JSON_stringify JNull = ''null''"
| "JSON_stringify (JBool b) = (if b then ''true'' else ''false'')"
| "JSON_stringify (JNum x) = show_number x"
| "JSON_stringify (JStr s) = quote s"
| "JSON_stringify (JArr xs) = ''['' @ join_commas (map JSON_stringify xs) @ '']''"
| "JSON_stringify (JObj kvs) =
     ''{'' @ join_commas (map (\<lambda>(k, v). quote k @ '':'' @ JSON_stringify v) kvs) @ ''}''"

subsection \<open>Base64\<close>

text \<open>
  \<open>Buffer.from(s, "base64").toString("utf-8")\<close>.  The decoder of Node.js takes both
  alphabets, skips any other character and stops at the padding; the bytes it yields are
  the text.
\<close>

definition b64_val :: "char \<Rightarrow> nat option" where
  "b64_val c =
     (let n = (of_char c :: nat) in
      if 65 \<le> n \<and> n \<le> 90 then Some (n - 65)
      else if 97 \<le> n \<and> n \<le> 122 then Some (n - 71)
      else if 48 \<le> n \<and> n \<le> 57 then Some (n + 4)
      else if c = CHR ''+'' \<or> c = CHR ''-'' then Some 62
      else if c = CHR ''/'' \<or> c = CHR ''_'' then Some 63
      else None)"

fun b64_bytes :: "nat list \<Rightarrow> nat list" where
  "b64_bytes (a # b # c # d # r) =
     (a * 4 + b div 16) # ((b mod 16) * 16 + c div 4) # ((c mod 4) * 64 + d) # b64_bytes r"
| "b64_bytes [a, b, c] = [a * 4 + b div 16, (b mod 16) * 16 + c div 4]"
| "b64_bytes [a, b] = [a * 4 + b div 16]"
| "b64_bytes _ = []"

definition base64_decode :: "string \<Rightarrow> string" where
  "base64_decode s =
     map char_of (b64_bytes (List.map_filter b64_val (takeWhile (\<lambda>c. c \<noteq> CHR ''='') s)))"


section \<open>Model normalisation: \<open>modelMap.ts\<close>\<close>

definition MODEL_MAP :: "(string \<times> string) list" where
  "MODEL_MAP =
    [(''gpt-5.1-codex'', ''gpt-5.1-codex''),
     (''gpt-5.1-codex-low'', ''gpt-5.1-codex''),
     (''gpt-5.1-codex-medium'', ''gpt-5.1-codex''),
     (''gpt-5.1-codex-high'', ''gpt-5.1-codex''),
     (''gpt-5.1-codex-max'', ''gpt-5.1-codex-max''),
     (''gpt-5.1-codex-max-low'', ''gpt-5.1-codex-max''),
     (''gpt-5.1-codex-max-medium'', ''gpt-5.1-codex-max''),
     (''gpt-5.1-codex-max-high'', ''gpt-5.1-codex-max''),
     (''gpt-5.1-codex-max-xhigh'', ''gpt-5.1-codex-max''),
     (''gpt-5.2'', ''gpt-5.2''),
     (''gpt-5.2-none'', ''gpt-5.2''),
     (''gpt-5.2-low'', ''gpt-5.2''),
     (''gpt-5.2-medium'', ''gpt-5.2''),
     (''gpt-5.2-high'', ''gpt-5.2''),
     (''gpt-5.2-xhigh'', ''gpt-5.2''),
     (''gpt-5.2-codex'', ''gpt-5.2-codex''),
     (''gpt-5.2-codex-low'', ''gpt-5.2-codex''),
     (''gpt-5.2-codex-medium'', ''gpt-5.2-codex''),
     (''gpt-5.2-codex-high'', ''gpt-5.2-codex''),
     (''gpt-5.2-codex-xhigh'', ''gpt-5.2-codex''),
     (''gpt-5.1-codex-mini'', ''gpt-5.1-codex-mini''),
     (''gpt-5.1-codex-mini-medium'', ''gpt-5.1-codex-mini''),
     (''gpt-5.1-codex-mini-high'', ''gpt-5.1-codex-mini''),
     (''gpt-5.1'', ''gpt-5.1''),
     (''gpt-5.1-none'', ''gpt-5.1''),
     (''gpt-5.1-low'', ''gpt-5.1''),
     (''gpt-5.1-medium'', ''gpt-5.1''),
     (''gpt-5.1-high'', ''gpt-5.1''),
     (''gpt-5.1-chat-latest'', ''gpt-5.1''),
     (''gpt-5.3'', ''gpt-5.3''),
     (''gpt-5.3-none'', ''gpt-5.3''),
     (''gpt-5.3-low'', ''gpt-5.3''),
     (''gpt-5.3-medium'', ''gpt-5.3''),
     (''gpt-5.3-high'', ''gpt-5.3''),
     (''gpt-5.3-xhigh'', ''gpt-5.3''),
     (''gpt-5.3-codex'', ''gpt-5.3-codex''),
     (''gpt-5.3-codex-low'', ''gpt-5.3-codex''),
     (''gpt-5.3-codex-medium'', ''gpt-5.3-codex''),
     (''gpt-5.3-codex-high'', ''gpt-5.3-codex''),
     (''gpt-5.3-codex-xhigh'', ''gpt-5.3-codex''),
     (''gpt-5-codex'', ''gpt-5.1-codex''),
     (''codex-mini-latest'', ''gpt-5.1-codex-mini''),
     (''gpt-5-codex-mini'', ''gpt-5.1-codex-mini''),
     (''gpt-5-codex-mini-medium'', ''gpt-5.1-codex-mini''),
     (''gpt-5-codex-mini-high'', ''gpt-5.1-codex-mini''),
     (''gpt-5'', ''gpt-5.1''),
     (''gpt-5-mini'', ''gpt-5.1''),
     (''gpt-5-nano'', ''gpt-5.1'')]"

text \<open>
  The pattern-based fallback of \<open>normalizeModel\<close>, most specific pattern first; the
  argument is the lower-cased identifier and \<open>None\<close> means that no pattern matched.
\<close>

definition pattern_fallback :: "string \<Rightarrow> string option" where
  "pattern_fallback lower =
     (if str_includes lower ''gpt-5.3-codex'' \<or> str_includes lower ''gpt 5.3 codex''
        then Some ''gpt-5.3-codex''
      else if str_includes lower ''gpt-5.3'' \<or> str_includes lower ''gpt 5.3'' then Some ''gpt-5.3''
      else if str_includes lower ''gpt-5.2-codex'' \<or> str_includes lower ''gpt 5.2 codex''
        then Some ''gpt-5.2-codex''
      else if str_includes lower ''gpt-5.2'' \<or> str_includes lower ''gpt 5.2'' then Some ''gpt-5.2''
      else if str_includes lower ''gpt-5.1-codex-max'' \<or> str_includes lower ''gpt 5.1 codex max''
        then Some ''gpt-5.1-codex-max''
      else if str_includes lower ''gpt-5.1-codex-mini'' \<or> str_includes lower ''gpt 5.1 codex mini''
        then Some ''gpt-5.1-codex-mini''
      else if str_includes lower ''codex-mini-latest'' \<or> str_includes lower ''gpt-5-codex-mini''
              \<or> str_includes lower ''gpt 5 codex mini''
        then Some ''gpt-5.1-codex-mini''
      else if str_includes lower ''gpt-5.1-codex'' \<or> str_includes lower ''gpt 5.1 codex''
        then Some ''gpt-5.1-codex''
      else if str_includes lower ''gpt-5.1'' \<or> str_includes lower ''gpt 5.1'' then Some ''gpt-5.1''
      else None)"

text \<open>
  \<open>normalizeModel(model: string | undefined)\<close>; \<open>undefined\<close> is \<open>None\<close>.  The table maps
  every key to a non-empty string, so a lookup is truthy exactly when the key is found;
  \<open>MODEL_MAP[match]\<close> for the key found by the case-insensitive scan is the value paired
  with that key.  The table is the list of its own entries: for an identifier that names
  a member every object inherits (\<open>constructor\<close>, \<open>toString\<close>, ...) the source returns
  that member, which is not a string and which the model does not follow.
\<close>

definition normalizeModel :: "string option \<Rightarrow> string" where
  "normalizeModel model =
     (case model of
        None \<Rightarrow> ''gpt-5.1''
      | Some m \<Rightarrow>
          if m = [] then ''gpt-5.1''
          else
            let modelId = (if CHR ''/'' \<in> set m then last (split_on (CHR ''/'') m) else m) in
            (case map_of MODEL_MAP modelId of
               Some canonical \<Rightarrow> canonical
             | None \<Rightarrow>
                 let lower = toLowerCase modelId in
                 (case find (\<lambda>(key, canonical). toLowerCase key = lower) MODEL_MAP of
                    Some (key, canonical) \<Rightarrow> canonical
                  | None \<Rightarrow>
                      (case pattern_fallback lower of
                         Some canonical \<Rightarrow> canonical
                       | None \<Rightarrow> modelId))))"


section \<open>OAuth token lifecycle: \<open>tokenManager.ts\<close>\<close>

text \<open>
  What the program throws: \<open>Error msg\<close> is \<open>new Error(msg)\<close>; \<open>TypeError\<close> and
  \<open>SyntaxError\<close> are raised by the language (a property of \<open>null\<close>, a call of
  something that is not a function, a malformed JSON text, a fetch that cannot
  connect); \<open>IOError\<close> is the failure of a body stream that is being read.
\<close>

datatype error = Error string | TypeError | SyntaxError | IOError

definition JWT_CLAIM_PATH :: string where
  "JWT_CLAIM_PATH = ''https://api.openai.com/auth''"

record TokenState =
  accessToken :: string
  refreshToken :: string
  expires :: number
  accountId :: string
  relayUrl :: "string option"
  relayKey :: "string option"

datatype TokenRefreshResult = Success string string number | Failed

subsection \<open>The world outside\<close>

text \<open>
  A response of \<open>fetch\<close>: its status and its body, which is absent (\<open>null\<close>) or a stream
  of chunks that ends normally or, when \<open>broken\<close>, with an error after the last chunk.
  A \<open>fetch\<close> that rejects is \<open>None\<close>.
\<close>

datatype stream = Stream (chunks: "string list") (broken: bool)

record Response =
  status :: nat
  res_body :: "stream option"

definition ok :: "Response \<Rightarrow> bool" where
  "ok r = (200 \<le> status r \<and> status r \<le> 299)"

text \<open>\<open>response.text()\<close> and \<open>response.json()\<close>; \<open>Inl\<close> is the rejection.\<close>

definition read_text :: "Response \<Rightarrow> error + string" where
  "read_text r =
     (case res_body r of
        None \<Rightarrow> Inr []
      | Some (Stream cs b) \<Rightarrow> if b then Inl IOError else Inr (concat cs))"

definition read_json :: "Response \<Rightarrow> error + json" where
  "read_json r =
     (case read_text r of
        Inl e \<Rightarrow> Inl e
      | Inr t \<Rightarrow> (case JSON_parse t of None \<Rightarrow> Inl SyntaxError | Some j \<Rightarrow> Inr j))"

text \<open>
  Everything the program reads from outside during one request: the clock at the validity
  check and the clock when a refreshed token is dated, the token endpoint (by the refresh
  token sent), the relay (by URL and \<open>Authorization\<close> header) and the backend (by headers
  and body).
\<close>

record world =
  clock :: number
  clock_refreshed :: number
  token_endpoint :: "string \<Rightarrow> Response option"
  relay :: "string \<Rightarrow> string \<Rightarrow> Response option"
  backend :: "(string \<times> string) list \<Rightarrow> string \<Rightarrow> Response option"

subsection \<open>JWT helpers\<close>

text \<open>
  The documents that arrive from outside are cast to interfaces without a check
  (\<open>as JWTPayload\<close>).  The model reads a field at its declared type: \<open>as_string\<close> for
  a field declared \<open>string\<close>, \<open>as_number\<close> for one declared \<open>number\<close>; a value of
  another JSON type is not a value of the interface and is read as if the field were
  missing.
\<close>

fun as_string :: "json option \<Rightarrow> string option" where
  "as_string (Some (JStr s)) = Some s"
| "as_string _ = None"

fun as_number :: "json option \<Rightarrow> number option" where
  "as_number (Some (JNum x)) = Some x"
| "as_number _ = None"

text \<open>\<open>decodeJWT\<close>: \<open>None\<close> is the \<open>null\<close> it returns for a malformed token.\<close>

definition decodeJWT :: "string \<Rightarrow> json option" where
  "decodeJWT token =
     (let parts = split_on (CHR ''.'') token in
      if length parts \<noteq> 3 then None
      else JSON_parse (base64_decode (parts ! 1)))"

definition getAccountId :: "string \<Rightarrow> error + string" where
  "getAccountId token =
     (let payload = decodeJWT token;
          accountId = as_string (opt_member (opt_member payload JWT_CLAIM_PATH) ''chatgpt_account_id'')
      in case accountId of
           None \<Rightarrow> Inl (Error ''Failed to extract chatgpt_account_id from access token'')
         | Some a \<Rightarrow>
             if a = [] then Inl (Error ''Failed to extract chatgpt_account_id from access token'')
             else Inr a)"

subsection \<open>Token state\<close>

definition loadTokens :: "string \<Rightarrow> string \<Rightarrow> error + TokenState" where
  "loadTokens access refresh =
     (let payload = decodeJWT access;
          exp = (case as_number (opt_member payload ''exp'') of
                   None \<Rightarrow> 0
                 | Some x \<Rightarrow> if x \<noteq> 0 then x * 1000 else 0)
      in case getAccountId access of
           Inl e \<Rightarrow> Inl e
         | Inr a \<Rightarrow>
             Inr \<lparr>accessToken = access, refreshToken = refresh, expires = exp,
                  accountId = a, relayUrl = None, relayKey = None\<rparr>)"

text \<open>\<open>shouldRefreshToken\<close>; the first argument is \<open>Date.now()\<close>.\<close>

definition shouldRefreshToken :: "number \<Rightarrow> TokenState \<Rightarrow> bool" where
  "shouldRefreshToken now state = (expires state - 60000 < now)"

subsection \<open>Token refresh\<close>

definition refreshAccessToken :: "world \<Rightarrow> string \<Rightarrow> TokenRefreshResult" where
  "refreshAccessToken w refresh =
     (case token_endpoint w refresh of
        None \<Rightarrow> Failed
      | Some response \<Rightarrow>
          if \<not> ok response then Failed
          else
            (case read_json response of
               Inl e \<Rightarrow> Failed
             | Inr j \<Rightarrow>
                 (case (as_string (opt_member (Some j) ''access_token''),
                        as_string (opt_member (Some j) ''refresh_token''),
                        as_number (opt_member (Some j) ''expires_in'')) of
                    (Some a, Some r, Some x) \<Rightarrow>
                      if a = [] \<or> r = [] then Failed
                      else Success a r (clock_refreshed w + x * 1000)
                  | _ \<Rightarrow> Failed)))"

text \<open>
  The two refreshing functions mutate the state object and may throw after they have
  begun to do so.  The model returns what was thrown (\<open>None\<close> when the call returned)
  together with the state object as the call leaves it.
\<close>

definition fetchFromRelay :: "world \<Rightarrow> TokenState \<Rightarrow> error option \<times> TokenState" where
  "fetchFromRelay w state =
     (case relayUrl state of
        None \<Rightarrow> (Some TypeError, state)
      | Some u \<Rightarrow>
          (case relay w u (''Bearer '' @ (case relayKey state of None \<Rightarrow> ''undefined'' | Some k \<Rightarrow> k)) of
             None \<Rightarrow> (Some TypeError, state)
           | Some res \<Rightarrow>
               if \<not> ok res then (Some (Error ''Failed to fetch token from relay''), state)
               else
                 (case read_json res of
                    Inl e \<Rightarrow> (Some e, state)
                  | Inr j \<Rightarrow>
                      if j = JNull then (Some TypeError, state)
                      else
                        (case (as_string (member j ''access_token''),
                               as_number (member j ''expires_at'')) of
                           (Some a, Some x) \<Rightarrow>
                             if a = [] then
                               (Some (Error ''Relay response missing access_token or expires_at''),
                                state)
                             else
                               (let state1 = state\<lparr>accessToken := a, expires := x\<rparr> in
                                case getAccountId a of
                                  Inl e \<Rightarrow> (Some e, state1)
                                | Inr acc \<Rightarrow> (None, state1\<lparr>accountId := acc\<rparr>))
                         | _ \<Rightarrow>
                             (Some (Error ''Relay response missing access_token or expires_at''),
                              state)))))"

definition ensureValidToken :: "world \<Rightarrow> TokenState \<Rightarrow> error option \<times> TokenState" where
  "ensureValidToken w state =
     (if \<not> shouldRefreshToken (clock w) state then (None, state)
      else if relayUrl state \<noteq> None \<and> relayUrl state \<noteq> Some [] then fetchFromRelay w state
      else
        (case refreshAccessToken w (refreshToken state) of
           Failed \<Rightarrow> (Some (Error ''Failed to refresh OAuth access token''), state)
         | Success a r x \<Rightarrow>
             (let state1 = state\<lparr>accessToken := a, refreshToken := r, expires := x\<rparr> in
              case getAccountId a of
                Inl e \<Rightarrow> (Some e, state1)
              | Inr acc \<Rightarrow> (None, state1\<lparr>accountId := acc\<rparr>))))"


section \<open>Request transformation: \<open>requestTransformer.ts\<close>\<close>

text \<open>
  A request body is the object that \<open>JSON.parse\<close> made of the client's text: an open
  record, here the list of its properties.  The interface \<open>RequestBody\<close> declares types
  for the recognised fields, but nothing checks them, so the model follows the language
  on every value.  The file is a module, and module code is strict: a property assigned
  on a primitive, a call of something that is not a function and a spread of something
  that is not iterable throw a \<open>TypeError\<close>.
\<close>

definition CODEX_BACKEND_URL :: string where
  "CODEX_BACKEND_URL = ''https://chatgpt.com/backend-api/codex/responses''"

definition getBackendUrl :: string where
  "getBackendUrl = CODEX_BACKEND_URL"

text \<open>Sequencing of steps that may throw.\<close>

definition and_then :: "error + 'a \<Rightarrow> ('a \<Rightarrow> error + 'b) \<Rightarrow> error + 'b" where
  "and_then r f = (case r of Inl e \<Rightarrow> Inl e | Inr x \<Rightarrow> f x)"

subsection \<open>Input filtering\<close>

text \<open>
  The two callbacks of \<open>filterInput\<close>.  \<open>item.type\<close> and \<open>item.id\<close> are \<open>undefined\<close> on
  an item that is not an object; \<open>{ id, ...rest } = item\<close> copies every own property but
  \<open>id\<close>, in order.
\<close>

definition not_item_reference :: "json \<Rightarrow> bool" where
  "not_item_reference item = (member item ''type'' \<noteq> Some (JStr ''item_reference''))"

definition strip_id :: "json \<Rightarrow> json" where
  "strip_id item =
     (case item of
        JObj kvs \<Rightarrow> if truthy_opt (map_of kvs ''id'') then JObj (AList.delete ''id'' kvs) else item
      | _ \<Rightarrow> item)"

text \<open>
  \<open>filterInput\<close>: the filter runs over the whole array before the map does, and
  \<open>item.type\<close> throws on a \<open>null\<close> item.
\<close>

definition filterInput :: "json list \<Rightarrow> error + json list" where
  "filterInput input =
     (if JNull \<in> set input then Inl TypeError
      else Inr (map strip_id (filter not_item_reference input)))"

subsection \<open>Body transformation\<close>

text \<open>
  The argument of the call \<open>normalizeModel(body.model)\<close>.  A falsy value takes the
  default as \<open>undefined\<close> does; on a truthy value that is not a string the call
  \<open>model.includes("/")\<close> fails (for an array the model reports the same failure and does
  not follow the coercion of the array to a property key).
\<close>

definition model_argument :: "json option \<Rightarrow> error + string option" where
  "model_argument v =
     (case v of
        None \<Rightarrow> Inr None
      | Some (JStr s) \<Rightarrow> Inr (Some s)
      | Some x \<Rightarrow> if truthy x then Inl TypeError else Inr None)"

definition default_reasoning :: json where
  "default_reasoning = JObj [(''effort'', JStr ''medium''), (''summary'', JStr ''auto'')]"

text \<open>
  The reasoning defaults.  On an object each missing or falsy field is set; on a truthy
  primitive the assignment of \<open>effort\<close> throws; an array takes the two properties without
  showing them when it is serialised, so it is left as it is.
\<close>

definition ensure_reasoning :: "jsobject \<Rightarrow> error + jsobject" where
  "ensure_reasoning body =
     (case map_of body ''reasoning'' of
        Some (JObj r) \<Rightarrow>
          (let r1 = (if truthy_opt (map_of r ''effort'') then r
                     else AList.update ''effort'' (JStr ''medium'') r);
               r2 = (if truthy_opt (map_of r1 ''summary'') then r1
                     else AList.update ''summary'' (JStr ''auto'') r1)
           in Inr (AList.update ''reasoning'' (JObj r2) body))
      | Some (JArr xs) \<Rightarrow> Inr body
      | v \<Rightarrow>
          if truthy_opt v then Inl TypeError
          else Inr (AList.update ''reasoning'' default_reasoning body))"

definition ENCRYPTED :: string where
  "ENCRYPTED = ''reasoning.encrypted_content''"

text \<open>
  The include list.  \<open>body.include.includes(...)\<close> is the membership test of an array and
  the substring test of a string; \<open>[...(body.include ?? []), marker]\<close> spreads an array,
  the characters of a string, or nothing for \<open>null\<close> and \<open>undefined\<close>, and throws on a
  number, a boolean or an object.
\<close>

definition ensure_include :: "jsobject \<Rightarrow> error + jsobject" where
  "ensure_include body =
     (case map_of body ''include'' of
        None \<Rightarrow> Inr (AList.update ''include'' (JArr [JStr ENCRYPTED]) body)
      | Some JNull \<Rightarrow> Inr (AList.update ''include'' (JArr [JStr ENCRYPTED]) body)
      | Some (JArr xs) \<Rightarrow>
          if JStr ENCRYPTED \<in> set xs then Inr body
          else Inr (AList.update ''include'' (JArr (xs @ [JStr ENCRYPTED])) body)
      | Some (JStr s) \<Rightarrow>
          if s \<noteq> [] \<and> str_includes s ENCRYPTED then Inr body
          else Inr (AList.update ''include''
                      (JArr (map (\<lambda>c. JStr [c]) s @ [JStr ENCRYPTED])) body)
      | Some v \<Rightarrow> Inl TypeError)"

definition filter_input :: "jsobject \<Rightarrow> error + jsobject" where
  "filter_input body =
     (case map_of body ''input'' of
        Some (JArr items) \<Rightarrow>
          and_then (filterInput items) (\<lambda>xs. Inr (AList.update ''input'' (JArr xs) body))
      | _ \<Rightarrow> Inr body)"

text \<open>
  \<open>transformRequestBody\<close> returns the transformed body and \<open>wasStreaming\<close>, or throws.
\<close>

definition transformRequestBody :: "jsobject \<Rightarrow> error + (jsobject \<times> bool)" where
  "transformRequestBody body =
     (let wasStreaming = (map_of body ''stream'' = Some (JBool True)) in
      and_then (model_argument (map_of body ''model'')) (\<lambda>m.
      let body1 = AList.update ''model'' (JStr (normalizeModel m)) body;
          body2 = AList.update ''store'' (JBool False) body1;
          body3 = AList.update ''stream'' (JBool True) body2
      in
      and_then (filter_input body3) (\<lambda>body4.
      and_then (ensure_reasoning body4) (\<lambda>body5.
      and_then (ensure_include body5) (\<lambda>body6.
      Inr (AList.delete ''max_completion_tokens'' (AList.delete ''max_output_tokens'' body6),
           wasStreaming))))))"

subsection \<open>Header creation\<close>

definition createHeaders :: "string \<Rightarrow> string \<Rightarrow> (string \<times> string) list" where
  "createHeaders access account =
     [(''Authorization'', ''Bearer '' @ access),
      (''Content-Type'', ''application/json''),
      (''chatgpt-account-id'', account),
      (''OpenAI-Beta'', ''responses=experimental''),
      (''originator'', ''codex_cli_rs''),
      (''accept'', ''text/event-stream'')]"


section \<open>Response handling: \<open>responseHandler.ts\<close>\<close>

text \<open>
  The downstream response once the handler has finished with it: the status and the
  headers of \<open>writeHead\<close>, and everything written to the body, in order.
\<close>

record ServerResponse =
  statusCode :: nat
  headers :: "(string \<times> string) list"
  sent :: string

definition respond :: "nat \<Rightarrow> (string \<times> string) list \<Rightarrow> string \<Rightarrow> ServerResponse" where
  "respond code hs text = \<lparr>statusCode = code, headers = hs, sent = text\<rparr>"

subsection \<open>Error remapping\<close>

definition isUsageLimitBody :: "string \<Rightarrow> bool" where
  "isUsageLimitBody text =
     (let haystack = toLowerCase text in
      str_includes haystack ''usage_limit_reached'' \<or> str_includes haystack ''usage_not_included''
      \<or> str_includes haystack ''rate_limit_exceeded'' \<or> str_includes haystack ''usage limit'')"

subsection \<open>Streaming passthrough\<close>

text \<open>Every chunk that arrives is written; a read error only ends the copying.\<close>

definition pipeStream :: "Response \<Rightarrow> ServerResponse" where
  "pipeStream upstream =
     respond 200
       [(''Content-Type'', ''text/event-stream; charset=utf-8''),
        (''Cache-Control'', ''no-cache''),
        (''Connection'', ''keep-alive'')]
       (case res_body upstream of None \<Rightarrow> [] | Some (Stream cs b) \<Rightarrow> concat cs)"

subsection \<open>SSE to JSON\<close>

text \<open>
  The loop of \<open>parseSseStream\<close> over the lines.  Its result is a JavaScript value that
  may be \<open>undefined\<close> (\<open>None\<close>): the \<open>response\<close> property of the first terminal event, or
  \<open>null\<close> when the lines are exhausted.  \<open>data.type\<close> throws on \<open>null\<close>, which the
  \<open>catch\<close> skips like a malformed line, and is \<open>undefined\<close> on any other value that is
  not an object.
\<close>

fun parseSseLines :: "string list \<Rightarrow> json option" where
  "parseSseLines [] = Some JNull"
| "parseSseLines (line # lines) =
     (if \<not> startsWith line ''data: '' then parseSseLines lines
      else
        (case JSON_parse (drop 6 line) of
           None \<Rightarrow> parseSseLines lines
         | Some data \<Rightarrow>
             if member data ''type'' = Some (JStr ''response.done'')
                \<or> member data ''type'' = Some (JStr ''response.completed'')
             then member data ''response''
             else parseSseLines lines))"

definition parseSseStream :: "string \<Rightarrow> json option" where
  "parseSseStream sseText = parseSseLines (split_on (CHR 0x0A) sseText)"

text \<open>
  \<open>convertSseToJson\<close>.  The test \<open>finalResponse != null\<close> fails for \<open>null\<close> and for
  \<open>undefined\<close>.
\<close>

definition convertSseToJson :: "Response \<Rightarrow> ServerResponse" where
  "convertSseToJson upstream =
     (case res_body upstream of
        None \<Rightarrow>
          respond 502 [(''Content-Type'', ''application/json'')]
            (JSON_stringify (JObj [(''error'', JStr ''No response body from upstream'')]))
      | Some (Stream cs b) \<Rightarrow>
          if b then
            respond 502 [(''Content-Type'', ''application/json'')]
              (JSON_stringify (JObj [(''error'', JStr ''Failed to read upstream response'')]))
          else
            (let fullText = concat cs;
                 raw = respond 200 [(''Content-Type'', ''text/event-stream; charset=utf-8'')] fullText
             in case parseSseStream fullText of
                  None \<Rightarrow> raw
                | Some finalResponse \<Rightarrow>
                    if finalResponse \<noteq> JNull then
                      respond 200 [(''Content-Type'', ''application/json; charset=utf-8'')]
                        (JSON_stringify finalResponse)
                    else raw))"

subsection \<open>Main entry point\<close>

text \<open>\<open>upstream.text().catch(() => "")\<close>.\<close>

definition text_or_empty :: "Response \<Rightarrow> string" where
  "text_or_empty r = (case read_text r of Inl e \<Rightarrow> [] | Inr t \<Rightarrow> t)"

definition handleUpstreamResponse :: "Response \<Rightarrow> bool \<Rightarrow> ServerResponse" where
  "handleUpstreamResponse upstream wasStreaming =
     (if status upstream = 404 then
        (let text = text_or_empty upstream;
             code = (if isUsageLimitBody text then 429 else 404)
         in respond code [(''Content-Type'', ''application/json'')] text)
      else if \<not> ok upstream then
        respond (status upstream) [(''Content-Type'', ''application/json'')]
          (text_or_empty upstream)
      else if wasStreaming then pipeStream upstream
      else convertSseToJson upstream)"


section \<open>The proxy server's request handler\<close>

text \<open>
  An inbound request: its method, its URL (\<open>req.url\<close> may be \<open>undefined\<close>) and the text of
  its body, \<open>None\<close> when the request stream fails while it is read.
\<close>

record IncomingMessage =
  http_method :: string
  url :: "string option"
  payload :: "string option"

text \<open>The calls that \<open>handleRequest\<close> makes, recorded in the order in which it makes them.\<close>

datatype call = ReadBody | EnsureValidToken | TransformRequestBody | Fetch | HandleUpstreamResponse

text \<open>
  What a run of \<open>handleRequest\<close> leaves: the response it wrote or the error it threw, the
  shared token state, and the calls it made.
\<close>

record handled =
  reply :: "error + ServerResponse"
  tokens :: TokenState
  calls :: "call list"

definition json_error :: "nat \<Rightarrow> string \<Rightarrow> ServerResponse" where
  "json_error code msg =
     respond code [(''Content-Type'', ''application/json'')]
       (JSON_stringify (JObj [(''error'', JStr msg)]))"

text \<open>
  The call \<open>transformRequestBody(body)\<close> on whatever \<open>JSON.parse\<close> returned, followed by
  \<open>JSON.stringify(transformed)\<close>.  The function reads \<open>body.stream\<close> first, which throws
  on \<open>null\<close>, and assigns \<open>body.model\<close> next, which throws on a primitive.  An array takes
  the assignments as named properties, which its serialisation does not show.
\<close>

definition transform_parsed :: "json \<Rightarrow> error + (string \<times> bool)" where
  "transform_parsed parsed =
     (case parsed of
        JObj kvs \<Rightarrow>
          and_then (transformRequestBody kvs)
            (\<lambda>(transformed, wasStreaming). Inr (JSON_stringify (JObj transformed), wasStreaming))
      | JArr xs \<Rightarrow> Inr (JSON_stringify (JArr xs), False)
      | _ \<Rightarrow> Inl TypeError)"

definition handleRequest :: "world \<Rightarrow> IncomingMessage \<Rightarrow> TokenState \<Rightarrow> handled" where
  "handleRequest w req tokenState =
     (if http_method req \<noteq> ''POST''
         \<or> \<not> (case url req of None \<Rightarrow> False | Some u \<Rightarrow> startsWith u ''/v1/responses'')
      then \<lparr>reply = Inr (json_error 404 ''Not found''), tokens = tokenState, calls = []\<rparr>
      else
        (case payload req of
           None \<Rightarrow> \<lparr>reply = Inl IOError, tokens = tokenState, calls = [ReadBody]\<rparr>
         | Some rawBody \<Rightarrow>
             (case JSON_parse rawBody of
                None \<Rightarrow>
                  \<lparr>reply = Inr (json_error 400 ''Invalid JSON body''), tokens = tokenState,
                   calls = [ReadBody]\<rparr>
              | Some parsed \<Rightarrow>
                  (case ensureValidToken w tokenState of
                     (Some e, state) \<Rightarrow>
                       \<lparr>reply = Inr (json_error 401 ''OAuth token refresh failed. Re-authenticate.''),
                        tokens = state, calls = [ReadBody, EnsureValidToken]\<rparr>
                   | (None, state) \<Rightarrow>
                       (case transform_parsed parsed of
                          Inl e \<Rightarrow>
                            \<lparr>reply = Inl e, tokens = state,
                             calls = [ReadBody, EnsureValidToken, TransformRequestBody]\<rparr>
                        | Inr (text, wasStreaming) \<Rightarrow>
                            (case backend w (createHeaders (accessToken state) (accountId state)) text of
                               None \<Rightarrow>
                                 \<lparr>reply = Inr (json_error 502 ''Failed to reach ChatGPT backend''),
                                  tokens = state,
                                  calls = [ReadBody, EnsureValidToken, TransformRequestBody, Fetch]\<rparr>
                             | Some upstream \<Rightarrow>
                                 \<lparr>reply = Inr (handleUpstreamResponse upstream wasStreaming),
                                  tokens = state,
                                  calls = [ReadBody, EnsureValidToken, TransformRequestBody, Fetch,
                                           HandleUpstreamResponse]\<rparr>))))))"

text \<open>
  The callback given to \<open>createServer\<close>: an error that \<open>handleRequest\<close> throws becomes a
  500 response (no header has been sent on any path that throws).
\<close>

definition serve :: "world \<Rightarrow> IncomingMessage \<Rightarrow> TokenState \<Rightarrow> ServerResponse" where
  "serve w req tokenState =
     (case reply (handleRequest w req tokenState) of
        Inl e \<Rightarrow> json_error 500 ''Internal proxy error''
      | Inr r \<Rightarrow> r)"


section \<open>Sample inputs\<close>

text \<open>
  Concrete inputs for the evaluations below: an access token whose payload is
  \<open>{"https://api.openai.com/auth":{"chatgpt_account_id":"acct_1"},"exp":1700000000}\<close>,
  the state that \<open>loadTokens\<close> builds from it, and a world in which no server can be
  reached.
\<close>

definition sample_token :: string where
  "sample_token =
     ''eyJhbGciOiJub25lIn0.eyJodHRwczovL2FwaS5vcGVuYWkuY29tL2F1dGgiOnsiY2hhdGdwdF9hY2NvdW50X2lkIjoiYWNjdF8xIn0sImV4cCI6MTcwMDAwMDAwMH0.sig''"

definition sample_state :: TokenState where
  "sample_state =
     \<lparr>accessToken = sample_token, refreshToken = ''refresh_1'', expires = 1700000000000,
      accountId = ''acct_1'', relayUrl = None, relayKey = None\<rparr>"

definition offline :: "number \<Rightarrow> world" where
  "offline now =
     \<lparr>clock = now, clock_refreshed = now, token_endpoint = (\<lambda>refresh. None),
      relay = (\<lambda>u key. None), backend = (\<lambda>hs text. None)\<rparr>"

text \<open>
  A token that is a well-formed JWT without the account claim (its payload is
  \<open>{"sub":"user","exp":1700003600}\<close>), and a world, one minute before \<open>sample_state\<close>
  expires, in which the token endpoint and the relay both hand out that token.
\<close>

definition claimless_token :: string where
  "claimless_token = ''eyJhbGciOiJub25lIn0.eyJzdWIiOiJ1c2VyIiwiZXhwIjoxNzAwMDAzNjAwfQ.sig''"

definition reply_200 :: "string \<Rightarrow> Response" where
  "reply_200 text = \<lparr>status = 200, res_body = Some (Stream [text] False)\<rparr>"

definition sample_world :: world where
  \<open>sample_world =
     \<lparr>clock = 1699999940001,
      clock_refreshed = 1699999940250,
      token_endpoint = (\<lambda>refresh.
        if refresh = ''refresh_1'' then
          Some (reply_200 (''{"access_token":"'' @ claimless_token
                           @ ''","refresh_token":"refresh_2","expires_in":3600}''))
        else None),
      relay = (\<lambda>u auth.
        if u = ''https://relay.example/token'' \<and> auth = ''Bearer relay_key'' then
          Some (reply_200 (''{"access_token":"'' @ claimless_token
                           @ ''","expires_at":1700003600000}''))
        else None),
      backend = (\<lambda>hs text. None)\<rparr>\<close>


section \<open>Vocabulary of the properties\<close>

text \<open>
  The event that a line of an event stream carries, when it is a terminal one: the line
  starts with \<open>data: \<close>, the rest of it parses as JSON, and the \<open>type\<close> of the parsed value
  is \<open>"response.done"\<close> or \<open>"response.completed"\<close>.
\<close>

definition terminal_event :: "string \<Rightarrow> json option" where
  "terminal_event line =
     (if startsWith line ''data: '' then
        (case JSON_parse (drop 6 line) of
           None \<Rightarrow> None
         | Some data \<Rightarrow>
             if member data ''type'' \<in> {Some (JStr ''response.done''), Some (JStr ''response.completed'')}
             then Some data else None)
      else None)"

text \<open>
  A body whose recognised fields have the types that the interface \<open>RequestBody\<close>
  declares for them, as far as \<open>transformRequestBody\<close> depends on them: \<open>model\<close> is a
  string, \<open>input\<close> an array of objects, \<open>reasoning\<close> an object and \<open>include\<close> an array of
  strings, each of them if present.
\<close>

fun is_string :: "json \<Rightarrow> bool" where
  "is_string (JStr s) = True"
| "is_string v = False"

fun is_object :: "json \<Rightarrow> bool" where
  "is_object (JObj kvs) = True"
| "is_object v = False"

fun is_array_of :: "(json \<Rightarrow> bool) \<Rightarrow> json \<Rightarrow> bool" where
  "is_array_of P (JArr xs) = list_all P xs"
| "is_array_of P v = False"

definition optional :: "(json \<Rightarrow> bool) \<Rightarrow> json option \<Rightarrow> bool" where
  "optional P v = (case v of None \<Rightarrow> True | Some x \<Rightarrow> P x)"

definition is_RequestBody :: "jsobject \<Rightarrow> bool" where
  "is_RequestBody body =
     (optional is_string (map_of body ''model'')
      \<and> optional (is_array_of is_object) (map_of body ''input'')
      \<and> optional is_object (map_of body ''reasoning'')
      \<and> optional (is_array_of is_string) (map_of body ''include''))"

text \<open>An input item without its \<open>id\<close> field, every other field in place.\<close>

definition without_id :: "json \<Rightarrow> json" where
  "without_id item = (case item of JObj kvs \<Rightarrow> JObj (AList.delete ''id'' kvs) | _ \<Rightarrow> item)"

text \<open>
  The binding of the account identifier to the access token: the stored identifier is the
  one that \<open>getAccountId\<close> derives from the stored token.
\<close>

definition account_bound :: "TokenState \<Rightarrow> bool" where
  "account_bound state = (getAccountId (accessToken state) = Inr (accountId state))"


section \<open>Properties of the string operations\<close>

lemma startsWith_iff: "startsWith s p \<longleftrightarrow> (\<exists>v. s = p @ v)"
proof
  assume "startsWith s p"
  then have "s = p @ drop (length p) s"
    unfolding startsWith_def by (metis append_take_drop_id)
  then show "\<exists>v. s = p @ v" ..
next
  assume "\<exists>v. s = p @ v"
  then show "startsWith s p" unfolding startsWith_def by auto
qed

text \<open>\<^const>\<open>str_includes\<close> is the substring test.\<close>

lemma str_includes_iff: "str_includes s p \<longleftrightarrow> (\<exists>u v. s = u @ p @ v)"
proof (induction s)
  case Nil
  then show ?case by auto
next
  case (Cons c cs)
  show ?case
  proof
    assume "str_includes (c # cs) p"
    then consider "startsWith (c # cs) p" | "str_includes cs p" by auto
    then show "\<exists>u v. c # cs = u @ p @ v"
    proof cases
      case 1
      then obtain v where "c # cs = p @ v" unfolding startsWith_iff by blast
      then have "c # cs = [] @ p @ v" by simp
      then show ?thesis by blast
    next
      case 2
      with Cons.IH obtain u v where "cs = u @ p @ v" by blast
      then have "c # cs = (c # u) @ p @ v" by simp
      then show ?thesis by blast
    qed
  next
    assume "\<exists>u v. c # cs = u @ p @ v"
    then obtain u v where uv: "c # cs = u @ p @ v" by blast
    show "str_includes (c # cs) p"
    proof (cases u)
      case Nil
      with uv have "startsWith (c # cs) p" unfolding startsWith_iff by auto
      then show ?thesis by simp
    next
      case (Cons d u')
      with uv have "cs = u' @ p @ v" by simp
      with Cons.IH have "str_includes cs p" by blast
      then show ?thesis by simp
    qed
  qed
qed

lemma split_on_not_Nil: "split_on sep s \<noteq> []"
  by (induction s) (auto split: list.splits)

lemma split_on_no_sep: "sep \<notin> set s \<Longrightarrow> split_on sep s = [s]"
  by (induction s) auto

text \<open>The pieces of a split, joined again with the separator, are the text.\<close>

lemma split_on_join: "concat (map (\<lambda>x. sep # x) (split_on sep s)) = sep # s"
proof (induction s)
  case Nil
  then show ?case by simp
next
  case (Cons c s)
  obtain w ws where ws: "split_on sep s = w # ws"
    using split_on_not_Nil [of sep s] by (cases "split_on sep s") auto
  with Cons show ?case by auto
qed

lemma split_on_pieces: "x \<in> set (split_on sep s) \<Longrightarrow> sep \<notin> set x"
proof (induction s arbitrary: x)
  case Nil
  then show ?case by simp
next
  case (Cons c s)
  obtain w ws where ws: "split_on sep s = w # ws"
    using split_on_not_Nil [of sep s] by (cases "split_on sep s") auto
  with Cons show ?case by (auto split: if_splits)
qed

lemma split_on_append:
  "sep \<notin> set s \<Longrightarrow> split_on sep (p @ sep # s) = split_on sep p @ [s]"
proof (induction p)
  case Nil
  then show ?case by (simp add: split_on_no_sep)
next
  case (Cons c p)
  obtain w ws where ws: "split_on sep p = w # ws"
    using split_on_not_Nil [of sep p] by (cases "split_on sep p") auto
  with Cons show ?case by auto
qed

text \<open>\<open>split("/").pop()\<close> is the text after the last separator.\<close>

lemma last_split_on: "sep \<notin> set s \<Longrightarrow> last (split_on sep (p @ sep # s)) = s"
  by (simp add: split_on_append)


section \<open>The bound of the JSON parser is never reached\<close>

text \<open>
  Every parser hands back strictly less text than it was given, so the nesting of the
  calls is bounded by the length of the text.
\<close>

lemma skip_ws_length: "length (skip_ws s) \<le> length s"
  by (simp add: skip_ws_def length_dropWhile_le)

lemma skip_ws_Cons_length: "skip_ws s = c # cs \<Longrightarrow> length cs < length s"
  using skip_ws_length [of s] by simp

lemma tl_skip_ws_length: "startsWith (skip_ws s) [c] \<Longrightarrow> length (tl (skip_ws s)) < length s"
  using skip_ws_length [of s] by (cases "skip_ws s") (auto simp: startsWith_def)

lemma parse_chars_shorter: "parse_chars s = Some (x, r) \<Longrightarrow> length r < length s"
proof (induction s arbitrary: x r rule: parse_chars.induct)
  case 1
  then show ?case by simp
next
  case (2 c cs)
  show ?case
  proof (cases "c = CHR 0x22")
    case True
    with 2(4) show ?thesis by simp
  next
    case False
    note nq = this
    show ?thesis
    proof (cases "c = CHR 0x5C")
      case True
      with nq 2(4) obtain e cs' where cs: "cs = e # cs'" by (cases cs) auto
      show ?thesis
      proof (cases "e = CHR ''u''")
        case True
        with nq \<open>c = CHR 0x5C\<close> cs 2(4) obtain n y where
          "hex4 (take 4 cs') = Some n" "parse_chars (drop 4 cs') = Some (y, r)"
          by (auto split: option.splits)
        with 2(1) [OF nq \<open>c = CHR 0x5C\<close> cs True] have "length r < length (drop 4 cs')"
          by blast
        with cs show ?thesis by simp
      next
        case False
        with nq \<open>c = CHR 0x5C\<close> cs 2(4) obtain ch y where
          "unescape e = Some ch" "parse_chars cs' = Some (y, r)"
          by (auto split: option.splits)
        with 2(2) [OF nq \<open>c = CHR 0x5C\<close> cs False] have "length r < length cs'"
          by blast
        with cs show ?thesis by simp
      qed
    next
      case False
      with nq 2(4) obtain y where "\<not> (of_char c :: nat) < 32" "parse_chars cs = Some (y, r)"
        by (auto split: if_splits)
      with 2(3) [OF nq False] have "length r < length cs" by blast
      then show ?thesis by simp
    qed
  qed
qed

lemma parse_fraction_length: "parse_fraction s = Some (f, r) \<Longrightarrow> length r \<le> length s"
  by (cases s) (auto simp: parse_fraction_def Let_def length_dropWhile_le le_SucI split: if_splits)

lemma parse_exponent_length: "parse_exponent s = Some (e, r) \<Longrightarrow> length r \<le> length s"
proof (cases s)
  case Nil
  assume "parse_exponent s = Some (e, r)"
  with Nil show ?thesis by (simp add: parse_exponent_def)
next
  case (Cons c cs)
  assume p: "parse_exponent s = Some (e, r)"
  have "length (dropWhile is_digit (tl cs)) \<le> length cs"
    using length_dropWhile_le [of is_digit "tl cs"] by (cases cs) auto
  moreover have "length (dropWhile is_digit cs) \<le> length cs" by (rule length_dropWhile_le)
  ultimately show ?thesis
    using p Cons by (auto simp: parse_exponent_def Let_def split: if_splits)
qed

lemma parse_number_shorter: "parse_number s = Some (x, r) \<Longrightarrow> length r < length s"
proof -
  assume p: "parse_number s = Some (x, r)"
  define s1 where "s1 = (if s \<noteq> [] \<and> hd s = CHR ''-'' then tl s else s)"
  define i where "i = (if s1 \<noteq> [] \<and> hd s1 = CHR ''0'' then ''0'' else takeWhile is_digit s1)"
  from p have ne: "i \<noteq> []"
    by (auto simp: parse_number_def Let_def s1_def i_def split: if_splits)
  from p obtain f s2 e where
    f: "parse_fraction (drop (length i) s1) = Some (f, s2)" and e: "parse_exponent s2 = Some (e, r)"
    by (auto simp: parse_number_def Let_def s1_def i_def split: if_splits option.splits)
  have "length i \<le> length s1"
    by (cases s1) (auto simp: i_def length_takeWhile_le le_SucI
        intro: order_trans [OF length_takeWhile_le])
  with ne have "length (drop (length i) s1) < length s1" by (cases i) auto
  moreover have "length s1 \<le> length s" by (simp add: s1_def)
  ultimately show ?thesis
    using parse_fraction_length [OF f] parse_exponent_length [OF e] by simp
qed

lemma parse_shorter:
  "parse_value n s = Some (v, r) \<Longrightarrow> length r < length s"
  "parse_elements n acc s = Some (v, r) \<Longrightarrow> length r < length s"
  "parse_members n obj s = Some (v, r) \<Longrightarrow> length r < length s"
proof (induction n s and n acc s and n obj s arbitrary: v r and v r and v r
    rule: parse_value_parse_elements_parse_members.induct)
  case (1 s)
  then show ?case by simp
next
  case (2 n s)
  from 2(3) obtain c cs where s: "skip_ws s = c # cs"
    by (cases "skip_ws s") auto
  have cs: "length cs < length s" using s by (rule skip_ws_Cons_length)
  have tl: "length (tl (skip_ws cs)) < length s"
    using skip_ws_length [of cs] cs by (cases "skip_ws cs") auto
  have d: "length (drop k (c # cs)) < length s" if "0 < k" for k
    using cs that by (cases k) auto
  consider (obj) "c = CHR ''{''" | (arr) "c \<noteq> CHR ''{''" "c = CHR ''[''"
    | (str) "c \<noteq> CHR ''{''" "c \<noteq> CHR ''[''" "c = CHR 0x22"
    | (other) "c \<noteq> CHR ''{''" "c \<noteq> CHR ''[''" "c \<noteq> CHR 0x22"
    by blast
  then show ?case
  proof cases
    case obj
    show ?thesis
    proof (cases "startsWith (skip_ws cs) ''}''")
      case True
      with obj s 2(3) tl show ?thesis by auto
    next
      case False
      with obj s 2(3) have "parse_members n [] cs = Some (v, r)" by simp
      with 2(1) [OF s obj False] have "length r < length cs" by blast
      with cs show ?thesis by simp
    qed
  next
    case arr
    show ?thesis
    proof (cases "startsWith (skip_ws cs) '']''")
      case True
      with arr s 2(3) tl show ?thesis by auto
    next
      case False
      with arr s 2(3) have "parse_elements n [] cs = Some (v, r)" by simp
      with 2(2) [OF s arr False] have "length r < length cs" by blast
      with cs show ?thesis by simp
    qed
  next
    case str
    with s 2(3) obtain x where "parse_chars cs = Some (x, r)" by auto
    then have "length r < length cs" by (rule parse_chars_shorter)
    with cs show ?thesis by simp
  next
    case other
    show ?thesis
    proof (cases "startsWith (c # cs) ''true'' \<or> startsWith (c # cs) ''false''
        \<or> startsWith (c # cs) ''null''")
      case True
      with other s 2(3) d [of 4] d [of 5] show ?thesis by (auto split: if_splits)
    next
      case False
      with other s 2(3) obtain x where "parse_number (c # cs) = Some (x, r)" by auto
      then have "length r < length (c # cs)" by (rule parse_number_shorter)
      with cs show ?thesis by simp
    qed
  qed
next
  case (3 acc s)
  then show ?case by simp
next
  case (4 n acc s)
  from 4(3) obtain v1 r1 where v1: "parse_value n s = Some (v1, r1)"
    by (auto split: option.splits)
  with 4(1) have r1: "length r1 < length s" by blast
  from 4(3) v1 obtain c cs where c: "skip_ws r1 = c # cs"
    by (cases "skip_ws r1") auto
  have cs: "length cs < length r1" using c by (rule skip_ws_Cons_length)
  show ?case
  proof (cases "c = CHR '',''")
    case True
    with 4(3) v1 c have "parse_elements n (acc @ [v1]) cs = Some (v, r)" by simp
    with 4(2) [OF v1 refl c True] have "length r < length cs" by blast
    with cs r1 show ?thesis by simp
  next
    case False
    with 4(3) v1 c have "r = cs" by (auto split: if_splits)
    with cs r1 show ?thesis by simp
  qed
next
  case (5 obj s)
  then show ?case by simp
next
  case (6 n obj s)
  from 6(3) obtain q s1 where q: "skip_ws s = q # s1"
    by (cases "skip_ws s") auto
  from 6(3) q have qq: "\<not> q \<noteq> CHR 0x22" by (auto split: if_splits)
  from 6(3) q qq obtain k s2 where k: "parse_chars s1 = Some (k, s2)"
    by (auto split: option.splits)
  from 6(3) q qq k have colon: "\<not> \<not> startsWith (skip_ws s2) '':''"
    by (auto split: if_splits)
  from 6(3) q qq k colon obtain v1 r1 where
    v1: "parse_value n (tl (skip_ws s2)) = Some (v1, r1)"
    by (auto split: option.splits)
  from 6(3) q qq k colon v1 obtain c cs where c: "skip_ws r1 = c # cs"
    by (cases "skip_ws r1") auto
  have l1: "length s1 < length s" using q by (rule skip_ws_Cons_length)
  have l2: "length s2 < length s1" using k by (rule parse_chars_shorter)
  have l3: "length (tl (skip_ws s2)) < length s2"
    using colon tl_skip_ws_length [of s2 "CHR '':''"] by simp
  have l4: "length r1 < length (tl (skip_ws s2))"
    using 6(1) [OF q qq k refl colon] v1 by blast
  have l5: "length cs < length r1" using c by (rule skip_ws_Cons_length)
  show ?case
  proof (cases "c = CHR '',''")
    case True
    with 6(3) q qq k colon v1 c have "parse_members n (AList.update k v1 obj) cs = Some (v, r)"
      by simp
    with 6(2) [OF q qq k refl colon v1 refl c True] have "length r < length cs" by blast
    with l1 l2 l3 l4 l5 show ?thesis by simp
  next
    case False
    with 6(3) q qq k colon v1 c have "r = cs" by (auto split: if_splits)
    with l1 l2 l3 l4 l5 show ?thesis by simp
  qed
qed

lemma parse_fuel_step:
  "2 * length s + 2 \<le> n \<Longrightarrow> parse_value (Suc n) s = parse_value n s"
  "2 * length s + 3 \<le> n \<Longrightarrow> parse_elements (Suc n) acc s = parse_elements n acc s"
  "2 * length s + 3 \<le> n \<Longrightarrow> parse_members (Suc n) obj s = parse_members n obj s"
proof (induction n s and n acc s and n obj s
    rule: parse_value_parse_elements_parse_members.induct)
  case (1 s)
  then show ?case by simp
next
  case (2 n s)
  show ?case
  proof (cases "skip_ws s")
    case Nil
    then show ?thesis by simp
  next
    case (Cons c cs)
    have cs: "length cs < length s" using Cons by (rule skip_ws_Cons_length)
    with 2(3) have n: "2 * length cs + 3 \<le> n" by simp
    have m: "parse_members (Suc n) [] cs = parse_members n [] cs"
      if "c = CHR ''{''" "\<not> startsWith (skip_ws cs) ''}''"
      using 2(1) [OF Cons that n] .
    have e: "parse_elements (Suc n) [] cs = parse_elements n [] cs"
      if "c \<noteq> CHR ''{''" "c = CHR ''[''" "\<not> startsWith (skip_ws cs) '']''"
      using 2(2) [OF Cons that n] .
    show ?thesis
      unfolding parse_value.simps(2) [of "Suc n"] parse_value.simps(2) [of n] Cons list.case
      using m e by simp
  qed
next
  case (3 acc s)
  then show ?case by simp
next
  case (4 n acc s)
  from 4(3) have n: "2 * length s + 2 \<le> n" by simp
  have v: "parse_value (Suc n) s = parse_value n s" using 4(1) [OF n] .
  show ?case
  proof (cases "parse_value n s")
    case None
    with v show ?thesis by simp
  next
    case (Some p)
    obtain v1 r1 where p: "p = (v1, r1)" by (cases p)
    with Some have s1: "parse_value n s = Some (v1, r1)" by simp
    then have r1: "length r1 < length s" by (rule parse_shorter(1))
    show ?thesis
    proof (cases "skip_ws r1")
      case Nil
      with v s1 show ?thesis by simp
    next
      case (Cons c cs)
      have "length cs < length r1" using Cons by (rule skip_ws_Cons_length)
      with r1 4(3) have m: "2 * length cs + 3 \<le> n" by simp
      have "parse_elements (Suc n) (acc @ [v1]) cs = parse_elements n (acc @ [v1]) cs"
        if "c = CHR '',''"
        using 4(2) [OF s1 refl Cons that m] .
      with v s1 Cons show ?thesis by simp
    qed
  qed
next
  case (5 obj s)
  then show ?case by simp
next
  case (6 n obj s)
  show ?case
  proof (cases "skip_ws s")
    case Nil
    then show ?thesis by simp
  next
    case (Cons q s1)
    note q = this
    show ?thesis
    proof (cases "q \<noteq> CHR 0x22")
      case True
      with q show ?thesis by simp
    next
      case False
      note qq = this
      show ?thesis
      proof (cases "parse_chars s1")
        case None
        with q qq show ?thesis by simp
      next
        case (Some p)
        obtain k s2 where "p = (k, s2)" by (cases p)
        with Some have k: "parse_chars s1 = Some (k, s2)" by simp
        show ?thesis
        proof (cases "\<not> startsWith (skip_ws s2) '':''")
          case True
          with q qq k show ?thesis by simp
        next
          case False
          note colon = this
          have l1: "length s1 < length s" using q by (rule skip_ws_Cons_length)
          have l2: "length s2 < length s1" using k by (rule parse_chars_shorter)
          have l3: "length (tl (skip_ws s2)) < length s2"
            using colon tl_skip_ws_length [of s2 "CHR '':''"] by simp
          from l1 l2 l3 6(3) have n: "2 * length (tl (skip_ws s2)) + 2 \<le> n" by simp
          have v: "parse_value (Suc n) (tl (skip_ws s2)) = parse_value n (tl (skip_ws s2))"
            using 6(1) [OF q qq k refl colon n] .
          show ?thesis
          proof (cases "parse_value n (tl (skip_ws s2))")
            case None
            with q qq k colon v show ?thesis by simp
          next
            case (Some p1)
            obtain v1 r1 where "p1 = (v1, r1)" by (cases p1)
            with Some have v1: "parse_value n (tl (skip_ws s2)) = Some (v1, r1)" by simp
            then have l4: "length r1 < length (tl (skip_ws s2))" by (rule parse_shorter(1))
            show ?thesis
            proof (cases "skip_ws r1")
              case Nil
              with q qq k colon v v1 show ?thesis by simp
            next
              case (Cons c cs)
              have "length cs < length r1" using Cons by (rule skip_ws_Cons_length)
              with l1 l2 l3 l4 6(3) have m: "2 * length cs + 3 \<le> n" by simp
              have "parse_members (Suc n) (AList.update k v1 obj) cs
                  = parse_members n (AList.update k v1 obj) cs"
                if "c = CHR '',''"
                using 6(2) [OF q qq k refl colon v1 refl Cons that m] .
              with q qq k colon v v1 Cons show ?thesis by simp
            qed
          qed
        qed
      qed
    qed
  qed
qed

text \<open>More fuel than \<open>2 * length s + 2\<close> changes nothing: the bound is never what stops the parser.\<close>

lemma parse_fuel_enough:
  assumes "2 * length s + 2 \<le> n"
  shows "parse_value n s = parse_value (2 * length s + 2) s"
  using assms
proof (induction n rule: dec_induct)
  case base
  show ?case by simp
next
  case (step n)
  then show ?case using parse_fuel_step(1) [of s n] by simp
qed

section \<open>The refresh margin\<close>

text \<open>
  Claim C7.  \<open>shouldRefreshToken\<close> is true exactly when less than 60 seconds remain until
  \<open>state.expires\<close> or the expiry is past, computed exactly as \<open>expires - 60000\<close> against
  the clock (on whole milliseconds this is the comparison of integers); so it is true for
  a state that expires 30000 ms from now and false for one that expires 90000 ms from now.
\<close>

theorem C7_refresh_margin:
  "(shouldRefreshToken now state \<longleftrightarrow> expires state - now < 60000)
   \<and> (\<forall>e n :: int.
         shouldRefreshToken (of_int n) (state\<lparr>expires := of_int e\<rparr>) \<longleftrightarrow> e - 60000 < n)
   \<and> shouldRefreshToken now (state\<lparr>expires := now + 30000\<rparr>)
   \<and> \<not> shouldRefreshToken now (state\<lparr>expires := now + 90000\<rparr>)"
proof -
  have "(of_int e :: rat) - 60000 < of_int n \<longleftrightarrow> e - 60000 < n" for e n :: int
  proof -
    have "(of_int e :: rat) - 60000 = of_int (e - 60000)" by simp
    then show ?thesis by (simp only: of_int_less_iff)
  qed
  then show ?thesis by (auto simp: shouldRefreshToken_def)
qed

section \<open>Prefix stripping in model normalisation\<close>

lemma normalizeModel_strip:
  assumes "s \<noteq> []" and "CHR ''/'' \<notin> set s"
  shows "normalizeModel (Some (p @ ''/'' @ s)) = normalizeModel (Some s)"
proof -
  have "last (split_on (CHR ''/'') (p @ CHR ''/'' # s)) = s"
    using assms(2) by (rule last_split_on)
  with assms show ?thesis
    by (simp add: normalizeModel_def)
qed

lemma normalizeModel_codex_high: "normalizeModel (Some ''gpt-5.1-codex-high'') = ''gpt-5.1-codex''"
  by (simp add: normalizeModel_def MODEL_MAP_def)

text \<open>
  Claim C8.  For every prefix \<open>p\<close> and every non-empty identifier \<open>s\<close> without a slash,
  \<open>normalizeModel(p + "/" + s)\<close> equals \<open>normalizeModel(s)\<close>; and both
  \<open>normalizeModel("vendor/gpt-5.1-codex-high")\<close> and \<open>normalizeModel("gpt-5.1-codex-high")\<close>
  are \<open>"gpt-5.1-codex"\<close>.
\<close>

theorem C8_prefix_stripping:
  "(\<forall>p s. s \<noteq> [] \<and> CHR ''/'' \<notin> set s \<longrightarrow>
      normalizeModel (Some (p @ ''/'' @ s)) = normalizeModel (Some s))
   \<and> normalizeModel (Some ''vendor/gpt-5.1-codex-high'') = ''gpt-5.1-codex''
   \<and> normalizeModel (Some ''gpt-5.1-codex-high'') = ''gpt-5.1-codex''"
proof -
  have "normalizeModel (Some (''vendor'' @ ''/'' @ ''gpt-5.1-codex-high''))
        = normalizeModel (Some ''gpt-5.1-codex-high'')"
    by (rule normalizeModel_strip) simp_all
  then show ?thesis
    using normalizeModel_strip normalizeModel_codex_high by simp
qed

theorem C8_prefix_stripping_witness:
  "''gpt-5.2-codex-xhigh'' \<noteq> [] \<and> CHR ''/'' \<notin> set ''gpt-5.2-codex-xhigh''
   \<and> normalizeModel (Some ''openai/azure/gpt-5.2-codex-xhigh'') = ''gpt-5.2-codex''
   \<and> normalizeModel (Some ''gpt-5.2-codex-xhigh'') = ''gpt-5.2-codex''"
proof -
  have a: "normalizeModel (Some ''gpt-5.2-codex-xhigh'') = ''gpt-5.2-codex''"
    by (simp add: normalizeModel_def MODEL_MAP_def)
  have "normalizeModel (Some (''openai/azure'' @ ''/'' @ ''gpt-5.2-codex-xhigh''))
        = normalizeModel (Some ''gpt-5.2-codex-xhigh'')"
    using C8_prefix_stripping [THEN conjunct1, rule_format,
        of "''gpt-5.2-codex-xhigh''" "''openai/azure''"]
    by simp
  with a show ?thesis by simp
qed


section \<open>The usage-limit remap\<close>

lemma text_or_empty_cases:
  "text_or_empty upstream =
     (case res_body upstream of
        None \<Rightarrow> []
      | Some (Stream cs b) \<Rightarrow> if b then [] else concat cs)"
  by (simp add: text_or_empty_def read_text_def split: option.splits stream.splits)

text \<open>
  Claim C6.  When the upstream status is 404 the adapter takes the whole body as text
  (the empty string when reading it fails) and answers 429 with that text if its
  lower-cased form contains one of the usage-limit markers, and 404 with that text
  otherwise; whether the request was streaming plays no part.
\<close>

theorem C6_usage_limit_remap:
  assumes "status upstream = 404"
  shows "handleUpstreamResponse upstream wasStreaming =
           \<lparr>statusCode =
              (if \<exists>marker \<in> set [''usage_limit_reached'', ''usage_not_included'',
                                  ''rate_limit_exceeded'', ''usage limit''].
                    str_includes (toLowerCase (text_or_empty upstream)) marker
               then 429 else 404),
            headers = [(''Content-Type'', ''application/json'')],
            sent = text_or_empty upstream\<rparr>"
  using assms by (simp add: handleUpstreamResponse_def isUsageLimitBody_def respond_def Let_def)

theorem C6_usage_limit_remap_witness:
  \<open>handleUpstreamResponse
      \<lparr>status = 404, res_body = Some (Stream [''{"error":{"code":'', ''"Usage_Limit_Reached"}}''] False)\<rparr>
      True
    = \<lparr>statusCode = 429, headers = [(''Content-Type'', ''application/json'')],
       sent = ''{"error":{"code":"Usage_Limit_Reached"}}''\<rparr>
   \<and> handleUpstreamResponse
      \<lparr>status = 404, res_body = Some (Stream [''{"detail":"Not Found"}''] False)\<rparr> False
    = \<lparr>statusCode = 404, headers = [(''Content-Type'', ''application/json'')],
       sent = ''{"detail":"Not Found"}''\<rparr>
   \<and> handleUpstreamResponse
      \<lparr>status = 404, res_body = Some (Stream [''usage limit''] True)\<rparr> False
    = \<lparr>statusCode = 404, headers = [(''Content-Type'', ''application/json'')], sent = []\<rparr>\<close>
proof -
  have a: \<open>status \<lparr>status = 404, res_body = b\<rparr> = 404\<close> for b
    by simp
  show ?thesis
    using C6_usage_limit_remap [OF a, of \<open>Some (Stream [''{"error":{"code":'', ''"Usage_Limit_Reached"}}''] False)\<close> True]
      C6_usage_limit_remap [OF a, of \<open>Some (Stream [''{"detail":"Not Found"}''] False)\<close> False]
      C6_usage_limit_remap [OF a, of "Some (Stream [''usage limit''] True)" False]
    by (simp add: text_or_empty_cases toLowerCase_def lower_char_def startsWith_def)
qed


section \<open>The single route\<close>

lemma json_error_text:
  \<open>json_error code msg =
     \<lparr>statusCode = code, headers = [(''Content-Type'', ''application/json'')],
      sent = ''{"error":'' @ quote msg @ ''}''\<rparr>\<close>
  by (simp add: json_error_def respond_def join_commas_def quote_def quote_char_def)

lemma quote_Not_found: \<open>quote ''Not found'' = ''"Not found"''\<close>
  by (simp add: quote_def quote_char_def)

lemma quote_Invalid: \<open>quote ''Invalid JSON body'' = ''"Invalid JSON body"''\<close>
  by (simp add: quote_def quote_char_def)

lemma parse_not_json: "JSON_parse ''not json'' = None"
  by code_simp

text \<open>
  What the test at the head of \<open>handleRequest\<close> does.  A request whose method is not
  \<open>POST\<close>, or whose URL is missing or does not start with \<open>/v1/responses\<close> (for example
  \<open>GET /v1/responses\<close> or \<open>POST /other\<close>), is answered 404 with the JSON body
  \<open>{"error":"Not found"}\<close>; nothing else has run by then: no call has been made and the
  token state is untouched.  A \<open>POST\<close> whose URL starts with \<open>/v1/responses\<close> goes on, and
  its body is read.
\<close>

lemma handleRequest_route_test:
  \<open>(http_method req \<noteq> ''POST'' \<or> url req = None
      \<or> (\<exists>u. url req = Some u \<and> \<not> startsWith u ''/v1/responses'')
     \<longrightarrow> handleRequest w req tokenState =
           \<lparr>reply = Inr \<lparr>statusCode = 404, headers = [(''Content-Type'', ''application/json'')],
                         sent = ''{"error":"Not found"}''\<rparr>,
            tokens = tokenState, calls = []\<rparr>)
   \<and> (http_method req = ''POST'' \<and> (\<exists>u. url req = Some u \<and> startsWith u ''/v1/responses'')
     \<longrightarrow> calls (handleRequest w req tokenState) \<noteq> []
         \<and> hd (calls (handleRequest w req tokenState)) = ReadBody)\<close>
  by (auto simp: handleRequest_def json_error_text quote_Not_found
      split: option.splits sum.splits prod.splits)

lemma handleRequest_route_test_examples:
  \<open>handleRequest (offline 0)
      \<lparr>http_method = ''GET'', url = Some ''/v1/responses'', payload = Some ''{}''\<rparr> sample_state
    = \<lparr>reply = Inr \<lparr>statusCode = 404, headers = [(''Content-Type'', ''application/json'')],
                     sent = ''{"error":"Not found"}''\<rparr>,
       tokens = sample_state, calls = []\<rparr>
   \<and> handleRequest (offline 0)
      \<lparr>http_method = ''POST'', url = Some ''/other'', payload = Some ''{}''\<rparr> sample_state
    = \<lparr>reply = Inr \<lparr>statusCode = 404, headers = [(''Content-Type'', ''application/json'')],
                     sent = ''{"error":"Not found"}''\<rparr>,
       tokens = sample_state, calls = []\<rparr>
   \<and> calls (handleRequest (offline 0)
      \<lparr>http_method = ''POST'', url = Some ''/v1/responses?x=1'', payload = None\<rparr> sample_state) \<noteq> []\<close>
  using handleRequest_route_test [of \<open>\<lparr>http_method = ''GET'', url = Some ''/v1/responses'', payload = Some ''{}''\<rparr>\<close>
        \<open>offline 0\<close> sample_state]
    handleRequest_route_test [of \<open>\<lparr>http_method = ''POST'', url = Some ''/other'', payload = Some ''{}''\<rparr>\<close>
        \<open>offline 0\<close> sample_state]
    handleRequest_route_test [of \<open>\<lparr>http_method = ''POST'', url = Some ''/v1/responses?x=1'', payload = None\<rparr>\<close>
        \<open>offline 0\<close> sample_state]
  by (simp add: startsWith_def)

text \<open>
  Claim C3 asks that every request other than a \<open>POST\<close> to exactly \<open>/v1/responses\<close>,
  \<open>POST /v1/responses/extra\<close> among them, is answered 404 with \<open>{"error":"Not found"}\<close>
  before anything else runs, as the comment above the test says (only \<open>POST /v1/responses\<close>
  is accepted).  The test is \<open>startsWith\<close>, so a longer path goes through:
  \<open>POST /v1/responses/extra\<close> has its body read and, the body not being JSON, is answered
  400; \<open>POST /v1/responsesXYZ\<close> has its body read as well.
\<close>

theorem C3_longer_path_is_accepted:
  \<open>handleRequest (offline 0)
      \<lparr>http_method = ''POST'', url = Some ''/v1/responses/extra'', payload = Some ''not json''\<rparr>
      sample_state
    = \<lparr>reply = Inr \<lparr>statusCode = 400, headers = [(''Content-Type'', ''application/json'')],
                     sent = ''{"error":"Invalid JSON body"}''\<rparr>,
       tokens = sample_state, calls = [ReadBody]\<rparr>
   \<and> reply (handleRequest (offline 0)
        \<lparr>http_method = ''POST'', url = Some ''/v1/responses/extra'', payload = Some ''not json''\<rparr>
        sample_state)
     \<noteq> Inr \<lparr>statusCode = 404, headers = [(''Content-Type'', ''application/json'')],
             sent = ''{"error":"Not found"}''\<rparr>
   \<and> calls (handleRequest (offline 0)
        \<lparr>http_method = ''POST'', url = Some ''/v1/responsesXYZ'', payload = Some ''not json''\<rparr>
        sample_state)
     = [ReadBody]\<close>
  by (simp add: handleRequest_def startsWith_def parse_not_json json_error_text quote_Invalid)

text \<open>So the body of this request has been read, and the answer is not the 404.\<close>

theorem C3_longer_path_is_accepted_witness:
  \<open>calls (handleRequest (offline 0)
      \<lparr>http_method = ''POST'', url = Some ''/v1/responses/extra'', payload = Some ''not json''\<rparr>
      sample_state) = [ReadBody]
   \<and> reply (handleRequest (offline 0)
      \<lparr>http_method = ''POST'', url = Some ''/v1/responses/extra'', payload = Some ''not json''\<rparr>
      sample_state)
     = Inr \<lparr>statusCode = 400, headers = [(''Content-Type'', ''application/json'')],
            sent = ''{"error":"Invalid JSON body"}''\<rparr>\<close>
  using C3_longer_path_is_accepted by simp

section \<open>Buffering mode: the event stream as one JSON document\<close>

lemma parseSseLines_skip:
  "terminal_event line = None \<Longrightarrow> parseSseLines (line # lines) = parseSseLines lines"
  by (auto simp: terminal_event_def split: if_splits option.splits)

lemma parseSseLines_hit:
  "terminal_event line = Some event \<Longrightarrow> parseSseLines (line # lines) = member event ''response''"
  by (auto simp: terminal_event_def split: if_splits option.splits)

lemma parseSseLines_prefix:
  "\<forall>l \<in> set pre. terminal_event l = None \<Longrightarrow> parseSseLines (pre @ rest) = parseSseLines rest"
  by (induction pre) (simp_all add: parseSseLines_skip del: parseSseLines.simps(2))

lemma parseSseLines_none:
  "\<forall>l \<in> set lines. terminal_event l = None \<Longrightarrow> parseSseLines lines = Some JNull"
  using parseSseLines_prefix [of lines "[]"] by simp

lemma parseSseLines_first:
  assumes "\<forall>l \<in> set pre. terminal_event l = None" and "terminal_event line = Some event"
  shows "parseSseLines (pre @ line # post) = member event ''response''"
  using assms by (simp add: parseSseLines_prefix parseSseLines_hit del: parseSseLines.simps(2))

lemma ok_not_404: "ok upstream \<Longrightarrow> status upstream \<noteq> 404"
  by (auto simp: ok_def)

lemma buffering_mode:
  assumes "ok upstream"
  shows "handleUpstreamResponse upstream False = convertSseToJson upstream"
  using assms ok_not_404 [OF assms] by (simp add: handleUpstreamResponse_def)

lemma convert_found:
  assumes "res_body upstream = Some (Stream cs False)"
    and "parseSseLines (split_on (CHR 0x0A) (concat cs)) = Some v" and "v \<noteq> JNull"
  shows "convertSseToJson upstream =
           \<lparr>statusCode = 200, headers = [(''Content-Type'', ''application/json; charset=utf-8'')],
            sent = JSON_stringify v\<rparr>"
  using assms by (simp add: convertSseToJson_def parseSseStream_def respond_def Let_def)

lemma convert_fallback:
  assumes "res_body upstream = Some (Stream cs False)"
    and "parseSseLines (split_on (CHR 0x0A) (concat cs)) = None
         \<or> parseSseLines (split_on (CHR 0x0A) (concat cs)) = Some JNull"
  shows "convertSseToJson upstream =
           \<lparr>statusCode = 200, headers = [(''Content-Type'', ''text/event-stream; charset=utf-8'')],
            sent = concat cs\<rparr>"
  using assms by (auto simp: convertSseToJson_def parseSseStream_def respond_def Let_def)

lemma convert_no_body:
  assumes "res_body upstream = None"
  shows \<open>convertSseToJson upstream =
           \<lparr>statusCode = 502, headers = [(''Content-Type'', ''application/json'')],
            sent = ''{"error":"No response body from upstream"}''\<rparr>\<close>
  using assms
  by (simp add: convertSseToJson_def respond_def join_commas_def quote_def quote_char_def)

text \<open>
  Claim C2, as the code has it.  For an upstream response with a 2xx status and a request
  that was not streaming: the buffered text is split into lines; among the lines that
  start with \<open>data: \<close> and whose rest parses as JSON, the first with type
  \<open>"response.done"\<close> or \<open>"response.completed"\<close> decides.  If its \<open>response\<close> is present
  and not \<open>null\<close>, the answer is 200 with that payload serialised as one JSON document;
  if its \<open>response\<close> is absent or \<open>null\<close>, or if no line carries such an event, the
  answer is 200 with the raw text and an event-stream content type.  An upstream without
  a body is answered 502 with a JSON error.
\<close>

theorem C2_buffering_mode:
  assumes "ok upstream"
  shows
   \<open>(res_body upstream = None \<longrightarrow>
       handleUpstreamResponse upstream False =
         \<lparr>statusCode = 502, headers = [(''Content-Type'', ''application/json'')],
          sent = ''{"error":"No response body from upstream"}''\<rparr>)
    \<and> (\<forall>cs pre line post event.
         res_body upstream = Some (Stream cs False)
         \<and> split_on (CHR 0x0A) (concat cs) = pre @ line # post
         \<and> (\<forall>l \<in> set pre. terminal_event l = None)
         \<and> terminal_event line = Some event \<longrightarrow>
         handleUpstreamResponse upstream False =
           (case member event ''response'' of
              Some v \<Rightarrow>
                if v \<noteq> JNull then
                  \<lparr>statusCode = 200,
                   headers = [(''Content-Type'', ''application/json; charset=utf-8'')],
                   sent = JSON_stringify v\<rparr>
                else
                  \<lparr>statusCode = 200,
                   headers = [(''Content-Type'', ''text/event-stream; charset=utf-8'')],
                   sent = concat cs\<rparr>
            | None \<Rightarrow>
                \<lparr>statusCode = 200,
                 headers = [(''Content-Type'', ''text/event-stream; charset=utf-8'')],
                 sent = concat cs\<rparr>))
    \<and> (\<forall>cs. res_body upstream = Some (Stream cs False)
         \<and> (\<forall>l \<in> set (split_on (CHR 0x0A) (concat cs)). terminal_event l = None) \<longrightarrow>
         handleUpstreamResponse upstream False =
           \<lparr>statusCode = 200, headers = [(''Content-Type'', ''text/event-stream; charset=utf-8'')],
            sent = concat cs\<rparr>)\<close>
proof (intro conjI allI impI)
  assume "res_body upstream = None"
  then show \<open>handleUpstreamResponse upstream False =
         \<lparr>statusCode = 502, headers = [(''Content-Type'', ''application/json'')],
          sent = ''{"error":"No response body from upstream"}''\<rparr>\<close>
    using assms by (simp add: buffering_mode convert_no_body)
next
  fix cs pre line post event
  assume a: "res_body upstream = Some (Stream cs False)
         \<and> split_on (CHR 0x0A) (concat cs) = pre @ line # post
         \<and> (\<forall>l \<in> set pre. terminal_event l = None)
         \<and> terminal_event line = Some event"
  then have p: "parseSseLines (split_on (CHR 0x0A) (concat cs)) = member event ''response''"
    by (simp add: parseSseLines_first)
  show "handleUpstreamResponse upstream False =
           (case member event ''response'' of
              Some v \<Rightarrow>
                if v \<noteq> JNull then
                  \<lparr>statusCode = 200,
                   headers = [(''Content-Type'', ''application/json; charset=utf-8'')],
                   sent = JSON_stringify v\<rparr>
                else
                  \<lparr>statusCode = 200,
                   headers = [(''Content-Type'', ''text/event-stream; charset=utf-8'')],
                   sent = concat cs\<rparr>
            | None \<Rightarrow>
                \<lparr>statusCode = 200,
                 headers = [(''Content-Type'', ''text/event-stream; charset=utf-8'')],
                 sent = concat cs\<rparr>)"
  proof (cases "member event ''response''")
    case None
    with a p assms show ?thesis by (simp add: buffering_mode convert_fallback)
  next
    case (Some v)
    with a p assms show ?thesis
      by (cases "v = JNull") (simp_all add: buffering_mode convert_fallback convert_found)
  qed
next
  fix cs
  assume a: "res_body upstream = Some (Stream cs False)
         \<and> (\<forall>l \<in> set (split_on (CHR 0x0A) (concat cs)). terminal_event l = None)"
  then have "parseSseLines (split_on (CHR 0x0A) (concat cs)) = Some JNull"
    by (simp add: parseSseLines_none)
  with a assms show "handleUpstreamResponse upstream False =
           \<lparr>statusCode = 200, headers = [(''Content-Type'', ''text/event-stream; charset=utf-8'')],
            sent = concat cs\<rparr>"
    by (simp add: buffering_mode convert_fallback)
qed

text \<open>
  A terminal event whose payload is \<open>null\<close> is not answered with the document \<open>null\<close>
  but with the raw text.
\<close>

theorem C2_buffering_mode_counterexample:
  \<open>terminal_event ''data: {"type":"response.done","response":null}''
      = Some (JObj [(''type'', JStr ''response.done''), (''response'', JNull)])
   \<and> JSON_stringify JNull = ''null''
   \<and> handleUpstreamResponse
      \<lparr>status = 200,
       res_body = Some (Stream [''data: {"type":"response.done","response":null}''] False)\<rparr> False
    = \<lparr>statusCode = 200, headers = [(''Content-Type'', ''text/event-stream; charset=utf-8'')],
       sent = ''data: {"type":"response.done","response":null}''\<rparr>
   \<and> handleUpstreamResponse
      \<lparr>status = 200,
       res_body = Some (Stream [''data: {"type":"response.done","response":null}''] False)\<rparr> False
    \<noteq> \<lparr>statusCode = 200, headers = [(''Content-Type'', ''application/json; charset=utf-8'')],
       sent = JSON_stringify JNull\<rparr>\<close>
  by code_simp

theorem C2_buffering_mode_witness:
  \<open>handleUpstreamResponse \<lparr>status = 200, res_body = None\<rparr> False
    = \<lparr>statusCode = 502, headers = [(''Content-Type'', ''application/json'')],
       sent = ''{"error":"No response body from upstream"}''\<rparr>
   \<and> handleUpstreamResponse
      \<lparr>status = 200,
       res_body = Some (Stream
         [''data: {"type":"response.output_text"}\<newline>\<newline>'',
          ''data: {"type":"response.done","response":{"id":"r1"}}\<newline>\<newline>''] False)\<rparr>
      False
    = \<lparr>statusCode = 200, headers = [(''Content-Type'', ''application/json; charset=utf-8'')],
       sent = ''{"id":"r1"}''\<rparr>
   \<and> handleUpstreamResponse
      \<lparr>status = 200,
       res_body = Some (Stream
         [''event: ping\<newline>data: {"type":"response.output_text"}\<newline>data: [DONE]\<newline>''] False)\<rparr>
      False
    = \<lparr>statusCode = 200, headers = [(''Content-Type'', ''text/event-stream; charset=utf-8'')],
       sent = ''event: ping\<newline>data: {"type":"response.output_text"}\<newline>data: [DONE]\<newline>''\<rparr>\<close>
proof -
  let ?none = "\<lparr>status = 200, res_body = None\<rparr>"
  let ?cs = \<open>[''data: {"type":"response.output_text"}\<newline>\<newline>'',
          ''data: {"type":"response.done","response":{"id":"r1"}}\<newline>\<newline>'']\<close>
  let ?found = "\<lparr>status = 200, res_body = Some (Stream ?cs False)\<rparr>"
  let ?ds = \<open>[''event: ping\<newline>data: {"type":"response.output_text"}\<newline>data: [DONE]\<newline>'']\<close>
  let ?raw = "\<lparr>status = 200, res_body = Some (Stream ?ds False)\<rparr>"
  have ok: "ok ?none" "ok ?found" "ok ?raw" by (simp_all add: ok_def)
  have a: \<open>handleUpstreamResponse ?none False
      = \<lparr>statusCode = 502, headers = [(''Content-Type'', ''application/json'')],
         sent = ''{"error":"No response body from upstream"}''\<rparr>\<close>
    using C2_buffering_mode [OF ok(1)] by simp
  have s: \<open>split_on (CHR 0x0A) (concat ?cs) =
      [''data: {"type":"response.output_text"}'', ''''] @
      ''data: {"type":"response.done","response":{"id":"r1"}}'' # ['''', '''']\<close>
    by code_simp
  have p: \<open>\<forall>l \<in> set [''data: {"type":"response.output_text"}'', '''']. terminal_event l = None\<close>
    by code_simp
  have e: \<open>terminal_event ''data: {"type":"response.done","response":{"id":"r1"}}''
      = Some (JObj [(''type'', JStr ''response.done''), (''response'', JObj [(''id'', JStr ''r1'')])])\<close>
    by code_simp
  have j: \<open>JSON_stringify (JObj [(''id'', JStr ''r1'')]) = ''{"id":"r1"}''\<close>
    by code_simp
  have b: \<open>handleUpstreamResponse ?found False
      = \<lparr>statusCode = 200, headers = [(''Content-Type'', ''application/json; charset=utf-8'')],
         sent = ''{"id":"r1"}''\<rparr>\<close>
    using C2_buffering_mode [OF ok(2), THEN conjunct2, THEN conjunct1, rule_format,
        of ?cs \<open>[''data: {"type":"response.output_text"}'', '''']\<close>
           \<open>''data: {"type":"response.done","response":{"id":"r1"}}''\<close> \<open>['''', '''']\<close>
           \<open>JObj [(''type'', JStr ''response.done''), (''response'', JObj [(''id'', JStr ''r1'')])]\<close>]
      s p e j
    by simp
  have n: \<open>\<forall>l \<in> set (split_on (CHR 0x0A) (concat ?ds)). terminal_event l = None\<close>
    by code_simp
  have c: \<open>handleUpstreamResponse ?raw False
      = \<lparr>statusCode = 200, headers = [(''Content-Type'', ''text/event-stream; charset=utf-8'')],
         sent = concat ?ds\<rparr>\<close>
    using C2_buffering_mode [OF ok(3), THEN conjunct2, THEN conjunct2, rule_format, of ?ds] n
    by simp
  from a b c show ?thesis by simp
qed

text \<open>
  Claim C10.  In buffering mode, if the first \<open>data: \<close> line that parses as JSON with
  type \<open>"response.done"\<close> or \<open>"response.completed"\<close> has no \<open>response\<close> or a \<open>null\<close>
  one, the answer is 200 with the raw text and an event-stream content type, whatever the
  lines after it carry.
\<close>

theorem C10_null_payload_fallback:
  assumes "ok upstream" and "res_body upstream = Some (Stream cs False)"
    and "split_on (CHR 0x0A) (concat cs) = pre @ line # post"
    and "\<forall>l \<in> set pre. terminal_event l = None"
    and "terminal_event line = Some event"
    and "member event ''response'' = None \<or> member event ''response'' = Some JNull"
  shows "handleUpstreamResponse upstream False =
           \<lparr>statusCode = 200, headers = [(''Content-Type'', ''text/event-stream; charset=utf-8'')],
            sent = concat cs\<rparr>"
proof -
  have "parseSseLines (split_on (CHR 0x0A) (concat cs)) = member event ''response''"
    using assms(3-5) by (simp add: parseSseLines_first)
  with assms(6) have "parseSseLines (split_on (CHR 0x0A) (concat cs)) = None
      \<or> parseSseLines (split_on (CHR 0x0A) (concat cs)) = Some JNull"
    by simp
  with assms(2) have "convertSseToJson upstream =
      \<lparr>statusCode = 200, headers = [(''Content-Type'', ''text/event-stream; charset=utf-8'')],
       sent = concat cs\<rparr>"
    by (rule convert_fallback)
  with assms(1) show ?thesis by (simp add: buffering_mode)
qed

theorem C10_null_payload_fallback_witness:
  \<open>handleUpstreamResponse
      \<lparr>status = 200,
       res_body = Some (Stream
         [''data: {"type":"response.created"}\<newline>data: {"type":"respon'',
          ''se.completed","response":null}\<newline>data: {"type":"response.done","response":{"id":"r1"}}\<newline>'']
         False)\<rparr>
      False
    = \<lparr>statusCode = 200, headers = [(''Content-Type'', ''text/event-stream; charset=utf-8'')],
       sent = ''data: {"type":"response.created"}\<newline>data: {"type":"response.completed","response":null}\<newline>data: {"type":"response.done","response":{"id":"r1"}}\<newline>''\<rparr>\<close>
proof -
  let ?cs = \<open>[''data: {"type":"response.created"}\<newline>data: {"type":"respon'',
          ''se.completed","response":null}\<newline>data: {"type":"response.done","response":{"id":"r1"}}\<newline>'']\<close>
  let ?up = "\<lparr>status = 200, res_body = Some (Stream ?cs False)\<rparr>"
  have h1: "ok ?up" by (simp add: ok_def)
  have h2: "res_body ?up = Some (Stream ?cs False)" by simp
  have h3: \<open>split_on (CHR 0x0A) (concat ?cs) =
      [''data: {"type":"response.created"}''] @ ''data: {"type":"response.completed","response":null}''
      # [''data: {"type":"response.done","response":{"id":"r1"}}'', '''']\<close>
    by code_simp
  have h4: \<open>\<forall>l \<in> set [''data: {"type":"response.created"}'']. terminal_event l = None\<close>
    by code_simp
  have h5: \<open>terminal_event ''data: {"type":"response.completed","response":null}''
      = Some (JObj [(''type'', JStr ''response.completed''), (''response'', JNull)])\<close>
    by code_simp
  have h6: "member (JObj [(''type'', JStr ''response.completed''), (''response'', JNull)]) ''response'' = None
      \<or> member (JObj [(''type'', JStr ''response.completed''), (''response'', JNull)]) ''response'' = Some JNull"
    by simp
  show ?thesis
    using C10_null_payload_fallback [OF h1 h2 h3 h4 h5 h6] by simp
qed

section \<open>The request transformation\<close>

lemma and_then_Inr: "and_then r f = Inr y \<longleftrightarrow> (\<exists>x. r = Inr x \<and> f x = Inr y)"
  by (cases r) (auto simp: and_then_def)

lemma map_of_update: "map_of (AList.update k v al) k' = (if k' = k then Some v else map_of al k')"
  by (simp add: update_conv')

lemma map_of_delete: "map_of (AList.delete k al) k' = (if k' = k then None else map_of al k')"
  by (simp add: delete_conv')

lemma filter_input_frame:
  "filter_input b = Inr b' \<Longrightarrow> k \<noteq> ''input'' \<Longrightarrow> map_of b' k = map_of b k"
  by (auto simp: filter_input_def and_then_Inr map_of_update split: option.splits json.splits)

lemma ensure_reasoning_frame:
  "ensure_reasoning b = Inr b' \<Longrightarrow> k \<noteq> ''reasoning'' \<Longrightarrow> map_of b' k = map_of b k"
  by (auto simp: ensure_reasoning_def map_of_update Let_def split: option.splits json.splits if_splits)

lemma ensure_include_frame:
  "ensure_include b = Inr b' \<Longrightarrow> k \<noteq> ''include'' \<Longrightarrow> map_of b' k = map_of b k"
  by (auto simp: ensure_include_def map_of_update split: option.splits json.splits if_splits)

lemma filter_input_input:
  "filter_input b = Inr b' \<Longrightarrow> map_of b ''input'' = Some (JArr items) \<Longrightarrow>
     JNull \<notin> set items
     \<and> map_of b' ''input'' = Some (JArr (map strip_id (filter not_item_reference items)))"
  by (auto simp: filter_input_def filterInput_def and_then_Inr map_of_update split: if_splits)

text \<open>The steps of \<open>transformRequestBody\<close>, one after the other.\<close>

lemma transformRequestBody_steps:
  assumes "transformRequestBody body = Inr (t, w)"
  obtains m b4 b5 b6 where
    "model_argument (map_of body ''model'') = Inr m"
    "filter_input (AList.update ''stream'' (JBool True) (AList.update ''store'' (JBool False)
        (AList.update ''model'' (JStr (normalizeModel m)) body))) = Inr b4"
    "ensure_reasoning b4 = Inr b5"
    "ensure_include b5 = Inr b6"
    "t = AList.delete ''max_completion_tokens'' (AList.delete ''max_output_tokens'' b6)"
    "w = (map_of body ''stream'' = Some (JBool True))"
  using assms unfolding transformRequestBody_def Let_def and_then_Inr by auto

lemma transformRequestBody_frame:
  assumes "transformRequestBody body = Inr (t, w)"
    and "k \<notin> {''model'', ''store'', ''stream'', ''input'', ''reasoning'', ''include'',
              ''max_output_tokens'', ''max_completion_tokens''}"
  shows "map_of t k = map_of body k"
proof -
  from assms(1) obtain m b4 b5 b6 where s:
    "filter_input (AList.update ''stream'' (JBool True) (AList.update ''store'' (JBool False)
        (AList.update ''model'' (JStr (normalizeModel m)) body))) = Inr b4"
    "ensure_reasoning b4 = Inr b5"
    "ensure_include b5 = Inr b6"
    "t = AList.delete ''max_completion_tokens'' (AList.delete ''max_output_tokens'' b6)"
    by (rule transformRequestBody_steps)
  from assms(2) have k: "k \<noteq> ''model''" "k \<noteq> ''store''" "k \<noteq> ''stream''" "k \<noteq> ''input''"
    "k \<noteq> ''reasoning''" "k \<noteq> ''include''" "k \<noteq> ''max_output_tokens''"
    "k \<noteq> ''max_completion_tokens''"
    by auto
  have "map_of t k = map_of b6 k" using s(4) k by (simp add: map_of_delete)
  also have "\<dots> = map_of b5 k" using s(3) k(6) by (rule ensure_include_frame)
  also have "\<dots> = map_of b4 k" using s(2) k(5) by (rule ensure_reasoning_frame)
  also have "\<dots> = map_of (AList.update ''stream'' (JBool True) (AList.update ''store'' (JBool False)
        (AList.update ''model'' (JStr (normalizeModel m)) body))) k"
    using s(1) k(4) by (rule filter_input_frame)
  also have "\<dots> = map_of body k" using k by (simp add: map_of_update)
  finally show ?thesis .
qed

lemma transformRequestBody_flags:
  assumes "transformRequestBody body = Inr (t, w)"
  shows "map_of t ''store'' = Some (JBool False)" and "map_of t ''stream'' = Some (JBool True)"
    and "w = (map_of body ''stream'' = Some (JBool True))"
proof -
  from assms obtain m b4 b5 b6 where s:
    "filter_input (AList.update ''stream'' (JBool True) (AList.update ''store'' (JBool False)
        (AList.update ''model'' (JStr (normalizeModel m)) body))) = Inr b4"
    "ensure_reasoning b4 = Inr b5"
    "ensure_include b5 = Inr b6"
    "t = AList.delete ''max_completion_tokens'' (AList.delete ''max_output_tokens'' b6)"
    "w = (map_of body ''stream'' = Some (JBool True))"
    by (rule transformRequestBody_steps)
  have through: "map_of t k = map_of (AList.update ''stream'' (JBool True)
        (AList.update ''store'' (JBool False)
        (AList.update ''model'' (JStr (normalizeModel m)) body))) k"
    if "k = ''store'' \<or> k = ''stream''" for k
  proof -
    from that have k: "k \<noteq> ''input''" "k \<noteq> ''reasoning''" "k \<noteq> ''include''"
      "k \<noteq> ''max_output_tokens''" "k \<noteq> ''max_completion_tokens''"
      by auto
    have "map_of t k = map_of b6 k" using s(4) k by (simp add: map_of_delete)
    also have "\<dots> = map_of b5 k" using s(3) k(3) by (rule ensure_include_frame)
    also have "\<dots> = map_of b4 k" using s(2) k(2) by (rule ensure_reasoning_frame)
    also have "\<dots> = map_of (AList.update ''stream'' (JBool True)
        (AList.update ''store'' (JBool False)
        (AList.update ''model'' (JStr (normalizeModel m)) body))) k"
      using s(1) k(1) by (rule filter_input_frame)
    finally show ?thesis .
  qed
  show "map_of t ''store'' = Some (JBool False)" by (simp add: through map_of_update)
  show "map_of t ''stream'' = Some (JBool True)" by (simp add: through map_of_update)
  show "w = (map_of body ''stream'' = Some (JBool True))" by (rule s(5))
qed

lemma transformRequestBody_input:
  assumes "transformRequestBody body = Inr (t, w)" and "map_of body ''input'' = Some (JArr items)"
  shows "map_of t ''input'' = Some (JArr (map strip_id (filter not_item_reference items)))"
proof -
  from assms(1) obtain m b4 b5 b6 where s:
    "filter_input (AList.update ''stream'' (JBool True) (AList.update ''store'' (JBool False)
        (AList.update ''model'' (JStr (normalizeModel m)) body))) = Inr b4"
    "ensure_reasoning b4 = Inr b5"
    "ensure_include b5 = Inr b6"
    "t = AList.delete ''max_completion_tokens'' (AList.delete ''max_output_tokens'' b6)"
    by (rule transformRequestBody_steps)
  have "map_of (AList.update ''stream'' (JBool True) (AList.update ''store'' (JBool False)
        (AList.update ''model'' (JStr (normalizeModel m)) body))) ''input'' = Some (JArr items)"
    using assms(2) by (simp add: map_of_update)
  with s(1) have "map_of b4 ''input'' = Some (JArr (map strip_id (filter not_item_reference items)))"
    using filter_input_input by blast
  moreover have "map_of t ''input'' = map_of b6 ''input''" using s(4) by (simp add: map_of_delete)
  moreover have "map_of b6 ''input'' = map_of b5 ''input''"
    using s(3) by (rule ensure_include_frame) simp
  moreover have "map_of b5 ''input'' = map_of b4 ''input''"
    using s(2) by (rule ensure_reasoning_frame) simp
  ultimately show ?thesis by simp
qed

lemma is_string_iff: "is_string v \<longleftrightarrow> (\<exists>s. v = JStr s)"
  by (cases v) auto

lemma is_object_iff: "is_object v \<longleftrightarrow> (\<exists>kvs. v = JObj kvs)"
  by (cases v) auto

lemma is_array_of_iff: "is_array_of P v \<longleftrightarrow> (\<exists>xs. v = JArr xs \<and> (\<forall>x \<in> set xs. P x))"
  by (cases v) (auto simp: list_all_iff)

text \<open>On a body of the declared types no step throws.\<close>

lemma transformRequestBody_returns:
  assumes "is_RequestBody body"
  shows "\<exists>t. transformRequestBody body = Inr (t, map_of body ''stream'' = Some (JBool True))"
proof -
  let ?b3 = "\<lambda>m. AList.update ''stream'' (JBool True) (AList.update ''store'' (JBool False)
        (AList.update ''model'' (JStr (normalizeModel m)) body))"
  from assms have ty:
    "optional is_string (map_of body ''model'')"
    "optional (is_array_of is_object) (map_of body ''input'')"
    "optional is_object (map_of body ''reasoning'')"
    "optional (is_array_of is_string) (map_of body ''include'')"
    by (simp_all add: is_RequestBody_def)
  from ty(1) obtain m where m: "model_argument (map_of body ''model'') = Inr m"
    by (auto simp: optional_def model_argument_def is_string_iff split: option.splits)
  have no_null: "JNull \<notin> set xs" if "\<forall>x \<in> set xs. is_object x" for xs
    using that by auto
  have "map_of (?b3 m) ''input'' = map_of body ''input''"
    by (simp add: map_of_update)
  with ty(2) have "\<exists>b4. filter_input (?b3 m) = Inr b4"
    by (auto simp: optional_def filter_input_def filterInput_def and_then_def is_array_of_iff
        no_null split: option.splits)
  then obtain b4 where b4: "filter_input (?b3 m) = Inr b4" ..
  have "map_of b4 ''reasoning'' = map_of body ''reasoning''"
    using filter_input_frame [OF b4, of "''reasoning''"] by (simp add: map_of_update)
  with ty(3) have "\<exists>b5. ensure_reasoning b4 = Inr b5"
    by (auto simp: optional_def ensure_reasoning_def Let_def is_object_iff split: option.splits)
  then obtain b5 where b5: "ensure_reasoning b4 = Inr b5" ..
  have "map_of b5 ''include'' = map_of body ''include''"
    using ensure_reasoning_frame [OF b5, of "''include''"]
      filter_input_frame [OF b4, of "''include''"] by (simp add: map_of_update)
  with ty(4) have "\<exists>b6. ensure_include b5 = Inr b6"
    by (auto simp: optional_def ensure_include_def is_array_of_iff split: option.splits)
  then obtain b6 where b6: "ensure_include b5 = Inr b6" ..
  from m b4 b5 b6 show ?thesis
    by (simp add: transformRequestBody_def and_then_def)
qed

text \<open>
  Claim C4.  Whatever the input body holds for them, the body that \<open>transformRequestBody\<close>
  returns has \<open>store\<close> equal to \<open>false\<close> and \<open>stream\<close> equal to \<open>true\<close>, and the returned
  \<open>wasStreaming\<close> is true exactly when the input's \<open>stream\<close> was the boolean \<open>true\<close>.  The
  function returns on every body of the declared types.
\<close>

theorem C4_store_stream_flags:
  "(is_RequestBody body \<longrightarrow>
      (\<exists>t. transformRequestBody body = Inr (t, map_of body ''stream'' = Some (JBool True))))
   \<and> (\<forall>t w. transformRequestBody body = Inr (t, w) \<longrightarrow>
          map_of t ''store'' = Some (JBool False)
          \<and> map_of t ''stream'' = Some (JBool True)
          \<and> (w \<longleftrightarrow> map_of body ''stream'' = Some (JBool True)))"
  using transformRequestBody_returns [of body] transformRequestBody_flags [of body]
  by blast

theorem C4_store_stream_flags_witness:
  \<open>is_RequestBody
      [(''model'', JStr ''openai/gpt-5-codex''), (''stream'', JBool False), (''store'', JBool True)]
   \<and> transformRequestBody
      [(''model'', JStr ''openai/gpt-5-codex''), (''stream'', JBool False), (''store'', JBool True)]
    = Inr ([(''model'', JStr ''gpt-5.1-codex''), (''stream'', JBool True), (''store'', JBool False),
            (''reasoning'', JObj [(''effort'', JStr ''medium''), (''summary'', JStr ''auto'')]),
            (''include'', JArr [JStr ''reasoning.encrypted_content''])], False)
   \<and> (\<exists>t. transformRequestBody [(''model'', JStr ''gpt-5.2''), (''stream'', JBool True)] = Inr (t, True)
          \<and> map_of t ''store'' = Some (JBool False) \<and> map_of t ''stream'' = Some (JBool True))
   \<and> (\<exists>t. transformRequestBody [(''model'', JStr ''gpt-5.2''), (''stream'', JStr ''true'')] = Inr (t, False)
          \<and> map_of t ''store'' = Some (JBool False) \<and> map_of t ''stream'' = Some (JBool True))\<close>
proof -
  let ?a = "[(''model'', JStr ''openai/gpt-5-codex''), (''stream'', JBool False), (''store'', JBool True)]"
  let ?b = "[(''model'', JStr ''gpt-5.2''), (''stream'', JBool True)]"
  let ?c = "[(''model'', JStr ''gpt-5.2''), (''stream'', JStr ''true'')]"
  have ty: "is_RequestBody ?a" "is_RequestBody ?b" "is_RequestBody ?c"
    by (simp_all add: is_RequestBody_def optional_def)
  have a: "transformRequestBody ?a
    = Inr ([(''model'', JStr ''gpt-5.1-codex''), (''stream'', JBool True), (''store'', JBool False),
            (''reasoning'', JObj [(''effort'', JStr ''medium''), (''summary'', JStr ''auto'')]),
            (''include'', JArr [JStr ''reasoning.encrypted_content''])], False)"
    by code_simp
  from C4_store_stream_flags [of ?b] ty(2)
  have b: "\<exists>t. transformRequestBody ?b = Inr (t, True)
          \<and> map_of t ''store'' = Some (JBool False) \<and> map_of t ''stream'' = Some (JBool True)"
    by fastforce
  from C4_store_stream_flags [of ?c] ty(3)
  have c: "\<exists>t. transformRequestBody ?c = Inr (t, False)
          \<and> map_of t ''store'' = Some (JBool False) \<and> map_of t ''stream'' = Some (JBool True)"
    by fastforce
  from ty(1) a b c show ?thesis by blast
qed

subsection \<open>Input filtering\<close>

lemma delete_absent: "map_of kvs k = None \<Longrightarrow> AList.delete k kvs = kvs"
  by (induction kvs) (auto split: if_splits)

lemma strip_id_without_id:
  assumes "member item ''id'' = None \<or> truthy_opt (member item ''id'')"
  shows "strip_id item = without_id item"
  using assms by (cases item) (auto simp: strip_id_def without_id_def delete_absent)

text \<open>
  Where no item is \<open>null\<close> and every surviving item has a truthy \<open>id\<close> or none,
  \<open>filterInput\<close> drops the references and removes the \<open>id\<close> of every other item, in
  order.
\<close>

lemma filterInput_truthy_ids:
  assumes "JNull \<notin> set input"
    and "\<forall>item \<in> set input. member item ''type'' \<noteq> Some (JStr ''item_reference'') \<longrightarrow>
           member item ''id'' = None \<or> truthy_opt (member item ''id'')"
  shows "filterInput input =
           Inr (map without_id
                  (filter (\<lambda>item. member item ''type'' \<noteq> Some (JStr ''item_reference'')) input))"
  using assms
  by (auto simp: filterInput_def not_item_reference_def [abs_def] strip_id_without_id)

lemma filterInput_example:
  "filterInput [JObj [(''type'', JStr ''item_reference''), (''id'', JStr ''a'')],
                JObj [(''type'', JStr ''message''), (''id'', JStr ''b''), (''text'', JStr ''x'')]]
     = Inr [JObj [(''type'', JStr ''message''), (''text'', JStr ''x'')]]"
  by (simp add: filterInput_def not_item_reference_def strip_id_def)

text \<open>
  Claim C5 asks that the \<open>id\<close> field of every remaining item is removed.  The test
  \<open>if (item.id)\<close> is one of truthiness, not of presence: an item whose \<open>id\<close> is the empty
  string passes through \<open>filterInput\<close>, and through \<open>transformRequestBody\<close>, with its \<open>id\<close>.
\<close>

theorem C5_empty_id_is_kept:
  "filterInput [JObj [(''type'', JStr ''message''), (''id'', JStr ''''), (''text'', JStr ''x'')]]
     = Inr [JObj [(''type'', JStr ''message''), (''id'', JStr ''''), (''text'', JStr ''x'')]]
   \<and> transformRequestBody
       [(''model'', JStr ''gpt-5''),
        (''input'', JArr [JObj [(''type'', JStr ''message''), (''id'', JStr ''''), (''text'', JStr ''x'')]])]
     = Inr ([(''model'', JStr ''gpt-5.1''),
             (''input'', JArr [JObj [(''type'', JStr ''message''), (''id'', JStr ''''), (''text'', JStr ''x'')]]),
             (''store'', JBool False), (''stream'', JBool True),
             (''reasoning'', JObj [(''effort'', JStr ''medium''), (''summary'', JStr ''auto'')]),
             (''include'', JArr [JStr ''reasoning.encrypted_content''])], False)"
  by code_simp

subsection \<open>The frame of the transformation\<close>

lemma strip_id_member: "k \<noteq> ''id'' \<Longrightarrow> member (strip_id item) k = member item k"
  by (cases item) (simp_all add: strip_id_def map_of_delete)

text \<open>
  Claim C9.  \<open>transformRequestBody\<close> changes only the fields \<open>model\<close>, \<open>store\<close>, \<open>stream\<close>,
  \<open>input\<close>, \<open>reasoning\<close>, \<open>include\<close>, \<open>max_output_tokens\<close> and \<open>max_completion_tokens\<close>:
  every other top-level field of the body is in the output with the value it had, and
  the output's input array holds the surviving items in order, each with every field
  other than \<open>id\<close> as it was.  The function returns on every body of the declared types.
\<close>

theorem C9_unrecognised_fields_survive:
  "(is_RequestBody body \<longrightarrow> (\<exists>r. transformRequestBody body = Inr r))
   \<and> (\<forall>t w. transformRequestBody body = Inr (t, w) \<longrightarrow>
          (\<forall>k. k \<notin> {''model'', ''store'', ''stream'', ''input'', ''reasoning'', ''include'',
                      ''max_output_tokens'', ''max_completion_tokens''} \<longrightarrow>
                map_of t k = map_of body k)
          \<and> (\<forall>items. map_of body ''input'' = Some (JArr items) \<longrightarrow>
                (\<exists>items'. map_of t ''input'' = Some (JArr items')
                   \<and> list_all2 (\<lambda>old new. \<forall>k. k \<noteq> ''id'' \<longrightarrow> member new k = member old k)
                        (filter (\<lambda>item. member item ''type'' \<noteq> Some (JStr ''item_reference'')) items)
                        items')))"
proof (intro conjI allI impI)
  assume "is_RequestBody body"
  then show "\<exists>r. transformRequestBody body = Inr r"
    using transformRequestBody_returns by blast
next
  fix t w k
  assume "transformRequestBody body = Inr (t, w)"
    and "k \<notin> {''model'', ''store'', ''stream'', ''input'', ''reasoning'', ''include'',
                      ''max_output_tokens'', ''max_completion_tokens''}"
  then show "map_of t k = map_of body k" by (rule transformRequestBody_frame)
next
  fix t w items
  assume "transformRequestBody body = Inr (t, w)" and "map_of body ''input'' = Some (JArr items)"
  then have "map_of t ''input'' = Some (JArr (map strip_id (filter not_item_reference items)))"
    by (rule transformRequestBody_input)
  moreover have "list_all2 (\<lambda>old new. \<forall>k. k \<noteq> ''id'' \<longrightarrow> member new k = member old k)
      (filter (\<lambda>item. member item ''type'' \<noteq> Some (JStr ''item_reference'')) items)
      (map strip_id (filter not_item_reference items))"
    by (simp add: list_all2_map2 list_all2_same strip_id_member not_item_reference_def [abs_def])
  ultimately show "\<exists>items'. map_of t ''input'' = Some (JArr items')
      \<and> list_all2 (\<lambda>old new. \<forall>k. k \<noteq> ''id'' \<longrightarrow> member new k = member old k)
           (filter (\<lambda>item. member item ''type'' \<noteq> Some (JStr ''item_reference'')) items) items'"
    by blast
qed

theorem C9_unrecognised_fields_survive_witness:
  \<open>is_RequestBody
      [(''model'', JStr ''gpt-5''), (''tools'', JArr [JObj [(''type'', JStr ''shell'')]]),
       (''max_output_tokens'', JNum 100), (''metadata'', JObj [(''run'', JNum 7)]),
       (''input'', JArr [JObj [(''type'', JStr ''item_reference''), (''id'', JStr ''a'')],
                         JObj [(''type'', JStr ''message''), (''id'', JStr ''b''), (''text'', JStr ''x'')]])]
   \<and> transformRequestBody
      [(''model'', JStr ''gpt-5''), (''tools'', JArr [JObj [(''type'', JStr ''shell'')]]),
       (''max_output_tokens'', JNum 100), (''metadata'', JObj [(''run'', JNum 7)]),
       (''input'', JArr [JObj [(''type'', JStr ''item_reference''), (''id'', JStr ''a'')],
                         JObj [(''type'', JStr ''message''), (''id'', JStr ''b''), (''text'', JStr ''x'')]])]
    = Inr ([(''model'', JStr ''gpt-5.1''), (''tools'', JArr [JObj [(''type'', JStr ''shell'')]]),
            (''metadata'', JObj [(''run'', JNum 7)]),
            (''input'', JArr [JObj [(''type'', JStr ''message''), (''text'', JStr ''x'')]]),
            (''store'', JBool False), (''stream'', JBool True),
            (''reasoning'', JObj [(''effort'', JStr ''medium''), (''summary'', JStr ''auto'')]),
            (''include'', JArr [JStr ''reasoning.encrypted_content''])], False)
   \<and> map_of [(''model'', JStr ''gpt-5.1''), (''tools'', JArr [JObj [(''type'', JStr ''shell'')]]),
            (''metadata'', JObj [(''run'', JNum 7)]),
            (''input'', JArr [JObj [(''type'', JStr ''message''), (''text'', JStr ''x'')]]),
            (''store'', JBool False), (''stream'', JBool True),
            (''reasoning'', JObj [(''effort'', JStr ''medium''), (''summary'', JStr ''auto'')]),
            (''include'', JArr [JStr ''reasoning.encrypted_content''])] ''metadata''
      = Some (JObj [(''run'', JNum 7)])\<close>
proof -
  let ?b = "[(''model'', JStr ''gpt-5''), (''tools'', JArr [JObj [(''type'', JStr ''shell'')]]),
       (''max_output_tokens'', JNum 100), (''metadata'', JObj [(''run'', JNum 7)]),
       (''input'', JArr [JObj [(''type'', JStr ''item_reference''), (''id'', JStr ''a'')],
                         JObj [(''type'', JStr ''message''), (''id'', JStr ''b''), (''text'', JStr ''x'')]])]"
  let ?t = "[(''model'', JStr ''gpt-5.1''), (''tools'', JArr [JObj [(''type'', JStr ''shell'')]]),
            (''metadata'', JObj [(''run'', JNum 7)]),
            (''input'', JArr [JObj [(''type'', JStr ''message''), (''text'', JStr ''x'')]]),
            (''store'', JBool False), (''stream'', JBool True),
            (''reasoning'', JObj [(''effort'', JStr ''medium''), (''summary'', JStr ''auto'')]),
            (''include'', JArr [JStr ''reasoning.encrypted_content''])]"
  have ty: "is_RequestBody ?b"
    by (simp add: is_RequestBody_def optional_def)
  have e: "transformRequestBody ?b = Inr (?t, False)"
    by code_simp
  have "''metadata'' \<notin> {''model'', ''store'', ''stream'', ''input'', ''reasoning'', ''include'',
                      ''max_output_tokens'', ''max_completion_tokens''}"
    by simp
  with C9_unrecognised_fields_survive [of ?b, THEN conjunct2, rule_format, OF e, THEN conjunct1,
      rule_format, of "''metadata''"]
  have "map_of ?t ''metadata'' = map_of ?b ''metadata''" by blast
  then have "map_of ?t ''metadata'' = Some (JObj [(''run'', JNum 7)])" by simp
  with ty e show ?thesis by blast
qed

section \<open>The binding of the account identifier to the access token\<close>

text \<open>
  Every operation that returns normally leaves the account identifier bound to the access
  token: \<open>loadTokens\<close> builds such a state, and \<open>ensureValidToken\<close>, on either path,
  keeps or re-establishes the binding.
\<close>

lemma loadTokens_bound: "loadTokens access refresh = Inr state \<Longrightarrow> account_bound state"
  by (auto simp: loadTokens_def account_bound_def Let_def split: sum.splits)

lemma fetchFromRelay_bound: "fetchFromRelay w state = (None, state') \<Longrightarrow> account_bound state'"
  by (auto simp: fetchFromRelay_def account_bound_def Let_def
      split: option.splits sum.splits if_splits prod.splits)

lemma ensureValidToken_bound:
  assumes "account_bound state" and "ensureValidToken w state = (None, state')"
  shows "account_bound state'"
proof (cases "shouldRefreshToken (clock w) state")
  case False
  with assms show ?thesis by (simp add: ensureValidToken_def)
next
  case True
  show ?thesis
  proof (cases "relayUrl state \<noteq> None \<and> relayUrl state \<noteq> Some []")
    case True
    with \<open>shouldRefreshToken (clock w) state\<close> assms(2)
    have "fetchFromRelay w state = (None, state')" by (simp add: ensureValidToken_def)
    then show ?thesis by (rule fetchFromRelay_bound)
  next
    case False
    with \<open>shouldRefreshToken (clock w) state\<close> assms(2) show ?thesis
      by (auto simp: ensureValidToken_def account_bound_def Let_def
          split: TokenRefreshResult.splits sum.splits)
  qed
qed

text \<open>
  A call that throws before it has assigned anything leaves the state as it was.  The one
  that throws later is the derivation of the identifier from the new token, and it leaves
  the new token in the state.
\<close>

lemma ensureValidToken_partial:
  assumes "shouldRefreshToken (clock w) state" and "relayUrl state = None"
    and "refreshAccessToken w (refreshToken state) = Success a r x"
    and "getAccountId a = Inl e"
  shows "ensureValidToken w state
           = (Some e, state\<lparr>accessToken := a, refreshToken := r, expires := x\<rparr>)"
  using assms by (simp add: ensureValidToken_def)

lemma sample_state_bound: "account_bound sample_state"
  by code_simp

lemma claimless_unbound:
  "getAccountId claimless_token
     = Inl (Error ''Failed to extract chatgpt_account_id from access token'')"
  by code_simp

lemma refresh_sample:
  "refreshAccessToken sample_world ''refresh_1''
     = Success claimless_token ''refresh_2'' 1700003540250"
  by code_simp

text \<open>
  Claim C1 asks that the stored account identifier is the one derived from the stored
  access token in every state that an operation leaves behind, also when it fails partway.
  Both refresh paths assign the new access token to the state before they derive the
  identifier from it, and the derivation can throw: a refresh that delivers a token
  without the account claim leaves the new token beside the identifier of the old one.
\<close>

theorem C1_binding_broken_by_failed_refresh:
  "account_bound sample_state
   \<and> ensureValidToken sample_world sample_state
       = (Some (Error ''Failed to extract chatgpt_account_id from access token''),
          sample_state\<lparr>accessToken := claimless_token, refreshToken := ''refresh_2'',
                        expires := 1700003540250\<rparr>)
   \<and> \<not> account_bound (sample_state\<lparr>accessToken := claimless_token, refreshToken := ''refresh_2'',
                                      expires := 1700003540250\<rparr>)
   \<and> ensureValidToken sample_world
        (sample_state\<lparr>relayUrl := Some ''https://relay.example/token'', relayKey := Some ''relay_key''\<rparr>)
       = (Some (Error ''Failed to extract chatgpt_account_id from access token''),
          sample_state\<lparr>relayUrl := Some ''https://relay.example/token'', relayKey := Some ''relay_key'',
                        accessToken := claimless_token, expires := 1700003600000\<rparr>)"
proof -
  have r: "shouldRefreshToken (clock sample_world) sample_state"
    by (simp add: shouldRefreshToken_def sample_world_def sample_state_def)
  have a: "ensureValidToken sample_world sample_state
       = (Some (Error ''Failed to extract chatgpt_account_id from access token''),
          sample_state\<lparr>accessToken := claimless_token, refreshToken := ''refresh_2'',
                        expires := 1700003540250\<rparr>)"
    using r by (simp add: ensureValidToken_def refresh_sample claimless_unbound sample_state_def)
  have b: "\<not> account_bound (sample_state\<lparr>accessToken := claimless_token, refreshToken := ''refresh_2'',
                                      expires := 1700003540250\<rparr>)"
    by (simp add: account_bound_def claimless_unbound)
  have c: "ensureValidToken sample_world
        (sample_state\<lparr>relayUrl := Some ''https://relay.example/token'', relayKey := Some ''relay_key''\<rparr>)
       = (Some (Error ''Failed to extract chatgpt_account_id from access token''),
          sample_state\<lparr>relayUrl := Some ''https://relay.example/token'', relayKey := Some ''relay_key'',
                        accessToken := claimless_token, expires := 1700003600000\<rparr>)"
    by code_simp
  from sample_state_bound a b c show ?thesis by blast
qed

end
